theory Spec2Isabelle
  imports Main "HOL-Library.AList"
begin

section \<open>Credential vault (app/database.py)\<close>

text \<open>
  One row of the table \<open>github_apis\<close>, with the columns that the INSERT statement of
  \<open>Database.add_github_api\<close> names. The serial \<open>id\<close> column is assigned by the database
  and read by no operation below, so it is left out. \<open>created_at\<close> is a point in time,
  a natural number here. The column \<open>github_token\<close> holds the ciphertext.
\<close>

record api_row =
  user_id :: int
  api_name :: string
  github_token :: string
  github_username :: string
  is_active :: bool
  created_at :: nat

type_synonym github_apis = "api_row list"

text \<open>A Python exception, carried with the text that \<open>str(e)\<close> gives.\<close>

datatype exn = Exn string

text \<open>
  A cipher as the vault uses it: \<open>cipher_encrypt c t\<close> is the value of
  \<open>base64.b64encode(self.cipher.encrypt(t.encode())).decode()\<close> and \<open>cipher_decrypt c t\<close>
  the value of \<open>self.cipher.decrypt(base64.b64decode(t.encode())).decode()\<close>, \<open>Inl\<close>
  when a step raises (Fernet raises \<open>InvalidToken\<close> for a ciphertext that does not
  verify under its key). The theorems about the vault hold for every cipher;
  \<open>init_encryption\<close> below is the one that \<open>Database._init_encryption\<close> builds.
\<close>

record cipher =
  cipher_encrypt :: "string \<Rightarrow> exn + string"
  cipher_decrypt :: "string \<Rightarrow> exn + string"

text \<open>
  \<open>Database._encrypt_token\<close> and \<open>Database._decrypt_token\<close>: the \<open>except\<close> clause logs
  and raises the exception again.
\<close>

definition encrypt_token :: "cipher \<Rightarrow> string \<Rightarrow> exn + string" where
  "encrypt_token c token =
     (case cipher_encrypt c token of Inl e \<Rightarrow> Inl e | Inr encrypted \<Rightarrow> Inr encrypted)"

definition decrypt_token :: "cipher \<Rightarrow> string \<Rightarrow> exn + string" where
  "decrypt_token c encrypted_token =
     (case cipher_decrypt c encrypted_token of Inl e \<Rightarrow> Inl e | Inr decrypted \<Rightarrow> Inr decrypted)"

subsection \<open>The cipher of the vault\<close>

text \<open>
  Bytes are 8-bit characters. \<open>utf8_encode\<close> is \<open>str.encode()\<close> and \<open>utf8_decode\<close> is
  \<open>bytes.decode()\<close> on the strings of this model, whose code points are below 256: a
  code point below 128 is one byte, the others are two. \<open>bytes.decode()\<close> raises
  \<open>UnicodeDecodeError\<close> on bytes that are not UTF-8; the sequences that encode a code
  point from 256 on have no string here and are an error of the model as well.
\<close>

type_synonym bytes = "char list"


definition utf8_encode_char :: "char \<Rightarrow> bytes" where
  "utf8_encode_char c =
     (let n = of_char c :: nat
      in if n < 128 then [c] else [char_of (192 + n div 64), char_of (128 + n mod 64)])"















subsection \<open>Connections and transactions\<close>

text \<open>
  A psycopg2 connection opens a transaction at its first statement; the statements of a
  cursor act on the transaction's view of the table (\<open>pending\<close>) and reach the stored
  table (\<open>stored\<close>) at \<open>conn.commit()\<close> only. \<open>Database._put_connection\<close> hands the
  connection back to the pool, which rolls back (or closes) a connection that is still
  inside a transaction: what was not committed is gone. Every method of \<open>Database\<close> is
  a coroutine without an \<open>await\<close> between \<open>_get_connection\<close> and \<open>_put_connection\<close>, so
  the methods run one after the other on the stored table.
\<close>

record connection =
  stored :: github_apis
  pending :: github_apis

definition get_connection :: "github_apis \<Rightarrow> connection" where
  "get_connection db = \<lparr>stored = db, pending = db\<rparr>"

definition commit :: "connection \<Rightarrow> connection" where
  "commit conn = conn\<lparr>stored := pending conn\<rparr>"

definition put_connection :: "connection \<Rightarrow> github_apis" where
  "put_connection conn = stored conn"

text \<open>
  \<open>UPDATE github_apis SET ... WHERE ...\<close>: every row that satisfies the condition is
  rewritten; the cursor's \<open>rowcount\<close> is the number of rows that satisfied it.
\<close>

definition execute_update ::
  "(api_row \<Rightarrow> bool) \<Rightarrow> (api_row \<Rightarrow> api_row) \<Rightarrow> connection \<Rightarrow> nat \<times> connection" where
  "execute_update cond upd conn =
     (length (filter cond (pending conn)),
      conn\<lparr>pending := map (\<lambda>r. if cond r then upd r else r) (pending conn)\<rparr>)"

definition execute_select :: "(api_row \<Rightarrow> bool) \<Rightarrow> connection \<Rightarrow> api_row list" where
  "execute_select cond conn = filter cond (pending conn)"

definition execute_insert :: "api_row \<Rightarrow> connection \<Rightarrow> connection" where
  "execute_insert r conn = conn\<lparr>pending := pending conn @ [r]\<rparr>"

definition execute_delete :: "(api_row \<Rightarrow> bool) \<Rightarrow> connection \<Rightarrow> connection" where
  "execute_delete cond conn = conn\<lparr>pending := filter (\<lambda>r. \<not> cond r) (pending conn)\<rparr>"

text \<open>The two WHERE clauses of the vault.\<close>

definition of_user :: "int \<Rightarrow> api_row \<Rightarrow> bool" where
  "of_user uid r = (user_id r = uid)"

definition named :: "int \<Rightarrow> string \<Rightarrow> api_row \<Rightarrow> bool" where
  "named uid name r = (user_id r = uid \<and> api_name r = name)"

definition active_of :: "int \<Rightarrow> api_row \<Rightarrow> bool" where
  "active_of uid r = (user_id r = uid \<and> is_active r)"

text \<open>
  \<open>cursor.execute(query, params)\<close> adapts its parameters before anything is sent:
  psycopg2 raises \<open>ValueError\<close> for a string parameter that holds a NUL character, and
  the statement is not run. \<open>sql_text_ok\<close> says that a string can be a parameter,
  \<open>nul_error\<close> is the exception. Failures of the store that do not depend on the
  arguments (a lost connection) are not modelled: the store is taken to be reachable.
\<close>

definition sql_text_ok :: "string \<Rightarrow> bool" where
  "sql_text_ok s = (CHR 0x00 \<notin> set s)"

definition nul_error :: exn where
  "nul_error = Exn ''A string literal cannot contain NUL (0x00) characters.''"

subsection \<open>The operations\<close>

text \<open>
  \<open>Database.add_github_api\<close>. \<open>add_github_api_try\<close> is the body of the \<open>try\<close>, with
  the table it commits. The token is encrypted first. The SELECT has the name as a
  parameter, the UPDATE and the INSERT have the ciphertext, the username and the name.
  An existing row of that user and name gets the new token, username and time: the
  UPDATE does not name \<open>is_active\<close>. Otherwise a row is inserted with
  \<open>is_active = False\<close>. The method catches every exception of the body and returns
  False; the connection goes back to the pool with nothing committed.
\<close>

definition add_github_api_try ::
  "cipher \<Rightarrow> nat \<Rightarrow> github_apis \<Rightarrow> int \<Rightarrow> string \<Rightarrow> string \<Rightarrow> string \<Rightarrow> exn + github_apis" where
  "add_github_api_try c now db uid name token username =
     (case encrypt_token c token of
        Inl e \<Rightarrow> Inl e
      | Inr encrypted_token \<Rightarrow>
          (let conn = get_connection db
           in if \<not> sql_text_ok name then Inl nul_error
              else
                (let existing = execute_select (named uid name) conn
                 in if \<not> (sql_text_ok encrypted_token \<and> sql_text_ok username \<and> sql_text_ok name)
                    then Inl nul_error
                    else
                      (let conn' =
                             (if existing \<noteq> []
                              then snd (execute_update (named uid name)
                                     (\<lambda>r. r\<lparr>github_token := encrypted_token,
                                            github_username := username,
                                            created_at := now\<rparr>) conn)
                              else execute_insert
                                     \<lparr>user_id = uid, api_name = name,
                                      github_token = encrypted_token,
                                      github_username = username, is_active = False,
                                      created_at = now\<rparr> conn)
                       in Inr (put_connection (commit conn'))))))"

definition add_github_api ::
  "cipher \<Rightarrow> nat \<Rightarrow> github_apis \<Rightarrow> int \<Rightarrow> string \<Rightarrow> string \<Rightarrow> string \<Rightarrow> bool \<times> github_apis" where
  "add_github_api c now db uid name token username =
     (case add_github_api_try c now db uid name token username of
        Inl e \<Rightarrow> (False, put_connection (get_connection db))
      | Inr db' \<Rightarrow> (True, db'))"

text \<open>
  \<open>Database.get_active_api\<close>. \<open>get_active_api_try\<close> is the body of the \<open>try\<close>: the first
  active row of the user, its token decrypted in place; the exception of
  \<open>_decrypt_token\<close> leaves the body. The method's \<open>except Exception\<close> logs it and
  returns None.
\<close>

definition get_active_api_try :: "cipher \<Rightarrow> github_apis \<Rightarrow> int \<Rightarrow> exn + api_row option" where
  "get_active_api_try c db uid =
     (case execute_select (active_of uid) (get_connection db) of
        [] \<Rightarrow> Inr None
      | api_data # _ \<Rightarrow>
          (case decrypt_token c (github_token api_data) of
             Inl e \<Rightarrow> Inl e
           | Inr token \<Rightarrow> Inr (Some (api_data\<lparr>github_token := token\<rparr>))))"

definition get_active_api :: "cipher \<Rightarrow> github_apis \<Rightarrow> int \<Rightarrow> api_row option" where
  "get_active_api c db uid =
     (case get_active_api_try c db uid of Inl e \<Rightarrow> None | Inr api_data \<Rightarrow> api_data)"

text \<open>
  \<open>Database.set_active_api\<close>: two UPDATE statements in one transaction, committed only
  when the second one changed a row. The first has no string parameter; the second
  has the name, and its exception makes the method return False.
\<close>

definition set_active_api :: "github_apis \<Rightarrow> int \<Rightarrow> string \<Rightarrow> bool \<times> github_apis" where
  "set_active_api db uid name =
     (let conn = get_connection db;
          conn1 = snd (execute_update (of_user uid) (\<lambda>r. r\<lparr>is_active := False\<rparr>) conn)
      in if \<not> sql_text_ok name then (False, put_connection conn1)
         else
           (let (rowcount, conn2) =
                  execute_update (named uid name) (\<lambda>r. r\<lparr>is_active := True\<rparr>) conn1
            in if rowcount > 0 then (True, put_connection (commit conn2))
               else (False, put_connection conn2)))"

text \<open>\<open>Database.remove_github_api\<close>: the DELETE has the name as a parameter.\<close>

definition remove_github_api :: "github_apis \<Rightarrow> int \<Rightarrow> string \<Rightarrow> bool \<times> github_apis" where
  "remove_github_api db uid name =
     (let conn = get_connection db
      in if \<not> sql_text_ok name then (False, put_connection conn)
         else (True, put_connection (commit (execute_delete (named uid name) conn))))"

subsection \<open>Histories of the vault\<close>

text \<open>
  A call of one of the three operations that write the table, and the tables that a
  sequence of calls goes through, starting with the table it is run on.
\<close>

datatype vault_op =
    AddOrUpdate nat int string string string
  | SetActive int string
  | Remove int string

fun vault_step :: "cipher \<Rightarrow> github_apis \<Rightarrow> vault_op \<Rightarrow> github_apis" where
  "vault_step c db (AddOrUpdate now uid name token username) =
     snd (add_github_api c now db uid name token username)"
| "vault_step c db (SetActive uid name) = snd (set_active_api db uid name)"
| "vault_step c db (Remove uid name) = snd (remove_github_api db uid name)"

fun observations :: "cipher \<Rightarrow> github_apis \<Rightarrow> vault_op list \<Rightarrow> github_apis list" where
  "observations c db [] = [db]"
| "observations c db (x # xs) = db # observations c (vault_step c db x) xs"

definition active_count :: "github_apis \<Rightarrow> int \<Rightarrow> nat" where
  "active_count db uid = length (filter (active_of uid) db)"

text \<open>The names of a user's rows are pairwise different.\<close>

definition unique_names :: "github_apis \<Rightarrow> bool" where
  "unique_names db = distinct (map (\<lambda>r. (user_id r, api_name r)) db)"

definition vault_inv :: "github_apis \<Rightarrow> bool" where
  "vault_inv db =
     (unique_names db \<and> list_all (\<lambda>r. active_count db (user_id r) \<le> 1) db \<and>
      list_all (\<lambda>r. sql_text_ok (api_name r)) db)"

text \<open>Two ciphers and a small history, for evaluating the operations.\<close>

definition toy_cipher :: cipher where
  "toy_cipher = \<lparr>cipher_encrypt = (\<lambda>t. Inr (rev t)), cipher_decrypt = (\<lambda>t. Inr (rev t))\<rparr>"


definition example_ops :: "vault_op list" where
  "example_ops = [AddOrUpdate 0 1 ''work'' ''ghp_1'' ''octo'', SetActive 1 ''work'']"

definition example_vault :: github_apis where
  "example_vault = last (observations toy_cipher [] example_ops)"

section \<open>Repository lists (app/utils.py)\<close>

text \<open>
  Python strings are sequences of code points; the strings here are lists of 8-bit
  characters, read as the code points below 256. \<open>isspace\<close> is \<open>str.isspace\<close> on
  that range, \<open>strip\<close> is \<open>str.strip()\<close>, \<open>str_split sep\<close> is \<open>str.split(sep)\<close> for
  a separator of one character (the empty string gives one empty piece),
  \<open>split_first sep\<close> is \<open>str.split(sep, 1)\<close> on a string that holds the separator,
  \<open>join\<close> is \<open>sep.join\<close>, and \<open>lower\<close> is \<open>str.lower()\<close> on that range.
\<close>

definition isspace :: "char \<Rightarrow> bool" where
  "isspace c = (of_char c \<in> set [9, 10, 11, 12, 13, 28, 29, 30, 31, 32, 133, 160 :: nat])"

definition strip :: "string \<Rightarrow> string" where
  "strip s = rev (dropWhile isspace (rev (dropWhile isspace s)))"

fun str_split :: "char \<Rightarrow> string \<Rightarrow> string list" where
  "str_split sep [] = [[]]"
| "str_split sep (c # cs) =
     (if c = sep then [] # str_split sep cs
      else (case str_split sep cs of [] \<Rightarrow> [[c]] | w # ws \<Rightarrow> (c # w) # ws))"

definition split_first :: "char \<Rightarrow> string \<Rightarrow> string \<times> string" where
  "split_first sep s = (takeWhile (\<lambda>c. c \<noteq> sep) s, tl (dropWhile (\<lambda>c. c \<noteq> sep) s))"

fun join :: "string \<Rightarrow> string list \<Rightarrow> string" where
  "join sep [] = []"
| "join sep [x] = x"
| "join sep (x # y # ys) = x @ sep @ join sep (y # ys)"

definition lower_char :: "char \<Rightarrow> char" where
  "lower_char c =
     (let n = of_char c :: nat
      in if (65 \<le> n \<and> n \<le> 90) \<or> (192 \<le> n \<and> n \<le> 222 \<and> n \<noteq> 215)
         then char_of (n + 32) else c)"

definition lower :: "string \<Rightarrow> string" where
  "lower s = map lower_char s"

text \<open>
  \<open>parse_repository_list\<close>: the pieces between commas, stripped, the empty ones dropped;
  a piece with a slash is split at its first slash into owner and name, a piece
  without one gets the default owner. Nothing removes a pair that occurs twice.
\<close>

definition parse_repository_list :: "string \<Rightarrow> string \<Rightarrow> (string \<times> string) list" where
  "parse_repository_list repos_str default_owner =
     (if repos_str = [] then []
      else map (\<lambda>repo.
                  if CHR ''/'' \<in> set repo
                  then (case split_first CHR ''/'' repo of
                          (owner, repo_name) \<Rightarrow> (strip owner, strip repo_name))
                  else (default_owner, strip repo))
             (filter (\<lambda>repo. repo \<noteq> []) (map strip (str_split CHR '','' repos_str))))"

section \<open>Remote visibility client (app/github_api.py)\<close>

text \<open>
  The requests that the client sends to the remote service: GET and PATCH of
  \<open>/repos/{owner}/{repo_name}\<close>, the PATCH with the body \<open>{'private': make_private}\<close>.
\<close>

datatype request =
    GetRepo string string
  | PatchRepo string string bool

text \<open>
  The JSON object of a repository, with the fields that \<open>get_repository\<close> reads;
  \<open>description\<close> and \<open>language\<close> are read with a default, so they may be missing.
\<close>

record repo_json =
  json_name :: string
  json_full_name :: string
  json_private :: bool
  json_owner_login :: string
  json_description :: "string option"
  json_html_url :: string
  json_created_at :: string
  json_updated_at :: string
  json_size :: int
  json_language :: "string option"

text \<open>
  The body of a response: a repository object, an object with or without a \<open>message\<close>
  field, or anything else (no JSON, or JSON of another shape), on which reading the
  fields raises.
\<close>

datatype body =
    RepoBody repo_json
  | MessageBody "string option"
  | OtherBody

text \<open>
  What a request comes back with: a response with its status code and body, or an
  exception of the transport (\<open>Raised\<close>, with the text of \<open>str(e)\<close>).
\<close>

datatype reply =
    Reply nat body
  | Raised string

text \<open>
  The remote service is a parameter: it answers a request sent with a token, in a
  state of its own (\<open>'w\<close>), which it may change. A session is that state together with
  the requests sent so far, in order.
\<close>

type_synonym 'w server = "string \<Rightarrow> 'w \<Rightarrow> request \<Rightarrow> reply \<times> 'w"

record 'w session =
  world :: 'w
  requests :: "request list"

text \<open>\<open>GitHubAPI(token, username)\<close>.\<close>

record github_client =
  client_token :: string
  client_username :: string

definition send :: "'w server \<Rightarrow> github_client \<Rightarrow> request \<Rightarrow> 'w session \<Rightarrow> reply \<times> 'w session" where
  "send srv gh req s =
     (case srv (client_token gh) (world s) req of
        (rep, w') \<Rightarrow> (rep, \<lparr>world = w', requests = requests s @ [req]\<rparr>))"

text \<open>The dictionary that \<open>get_repository\<close> returns.\<close>

record repo_info =
  info_name :: string
  info_full_name :: string
  info_private :: bool
  info_owner :: string
  info_description :: string
  info_url :: string
  info_created_at :: string
  info_updated_at :: string
  info_size :: int
  info_language :: string

definition repo_info_of :: "repo_json \<Rightarrow> repo_info" where
  "repo_info_of repo_data =
     \<lparr>info_name = json_name repo_data,
      info_full_name = json_full_name repo_data,
      info_private = json_private repo_data,
      info_owner = json_owner_login repo_data,
      info_description = (case json_description repo_data of None \<Rightarrow> [] | Some d \<Rightarrow> d),
      info_url = json_html_url repo_data,
      info_created_at = json_created_at repo_data,
      info_updated_at = json_updated_at repo_data,
      info_size = json_size repo_data,
      info_language = (case json_language repo_data of None \<Rightarrow> ''Unknown'' | Some l \<Rightarrow> l)\<rparr>"

text \<open>
  \<open>GitHubAPI.get_repository\<close>: the dictionary on status 200; None on status 404, on
  every other status, and on every exception (of the transport or of reading the
  body), which the method catches. The three branches that return None differ in the
  line they log.
\<close>

definition get_repository ::
  "'w server \<Rightarrow> github_client \<Rightarrow> string \<Rightarrow> string \<Rightarrow> 'w session \<Rightarrow> repo_info option \<times> 'w session" where
  "get_repository srv gh owner repo_name s =
     (case send srv gh (GetRepo owner repo_name) s of
        (Raised e, s') \<Rightarrow> (None, s')
      | (Reply status b, s') \<Rightarrow>
          (if status = 200
           then (case b of RepoBody repo_data \<Rightarrow> (Some (repo_info_of repo_data), s')
                         | MessageBody m \<Rightarrow> (None, s')
                         | OtherBody \<Rightarrow> (None, s'))
           else if status = 404 then (None, s')
           else (None, s')))"

text \<open>Decimal digits of a status code, for \<open>f'HTTP {response.status}'\<close>.\<close>

fun str_nat :: "nat \<Rightarrow> string" where
  "str_nat n =
     (if n < 10 then [char_of (48 + n)]
      else str_nat (n div 10) @ [char_of (48 + n mod 10)])"

declare str_nat.simps [simp del]

text \<open>
  \<open>GitHubAPI.toggle_repository_visibility\<close>: success on status 200; otherwise the
  \<open>message\<close> of the body, or \<open>HTTP\<close> and the status when there is none or the body is
  not such an object; an exception of the transport gives its text.
\<close>

definition toggle_repository_visibility ::
  "'w server \<Rightarrow> github_client \<Rightarrow> string \<Rightarrow> string \<Rightarrow> bool \<Rightarrow> 'w session
     \<Rightarrow> (bool \<times> string) \<times> 'w session" where
  "toggle_repository_visibility srv gh owner repo_name make_private s =
     (let visibility = (if make_private then ''private'' else ''public'')
      in case send srv gh (PatchRepo owner repo_name make_private) s of
           (Raised e, s') \<Rightarrow> ((False, e), s')
         | (Reply status b, s') \<Rightarrow>
             (if status = 200
              then ((True, ''Repository '' @ repo_name @ '' is now '' @ visibility), s')
              else (case b of
                      MessageBody (Some m) \<Rightarrow> ((False, m), s')
                    | MessageBody None \<Rightarrow> ((False, ''HTTP '' @ str_nat status), s')
                    | RepoBody repo_data \<Rightarrow> ((False, ''HTTP '' @ str_nat status), s')
                    | OtherBody \<Rightarrow> ((False, ''HTTP '' @ str_nat status), s'))))"

section \<open>Batch orchestrator (app/handlers.py)\<close>

text \<open>
  \<open>results\<close> is a Python dictionary from \<open>f"{owner}/{repo_name}"\<close> to a triple
  (success, message, visibility): an association list in insertion order, where
  storing under a key that is present replaces the value in place (\<open>AList.update\<close>).
\<close>

type_synonym outcome = "bool \<times> string \<times> string"
type_synonym results = "(string \<times> outcome) list"

definition repo_key :: "string \<times> string \<Rightarrow> string" where
  "repo_key p = fst p @ ''/'' @ snd p"

text \<open>
  The bodies of the two loops of \<open>BotHandlers._execute_batch_toggle\<close>, for one element
  of the list. Both methods of the client catch every exception and return a value, so
  the \<open>except\<close> clause around the body is never entered and has no branch here. The
  pause after each element (\<open>asyncio.sleep(0.2)\<close>) is time only.
\<close>

definition toggle_one ::
  "'w server \<Rightarrow> github_client \<Rightarrow> string \<times> string \<Rightarrow> results \<times> 'w session \<Rightarrow> results \<times> 'w session" where
  "toggle_one srv gh p st =
     (case (p, st) of ((owner, repo_name), (results, s)) \<Rightarrow>
        (case get_repository srv gh owner repo_name s of
           (Some repo_info, s1) \<Rightarrow>
             (let make_private = \<not> info_private repo_info
              in case toggle_repository_visibility srv gh owner repo_name make_private s1 of
                   ((success, message), s2) \<Rightarrow>
                     (AList.update (repo_key (owner, repo_name))
                        (success, message, if make_private then ''private'' else ''public'')
                        results, s2))
         | (None, s1) \<Rightarrow>
             (AList.update (repo_key (owner, repo_name))
                (False, ''Repository not found'', ''unknown'') results, s1)))"

definition set_one ::
  "'w server \<Rightarrow> github_client \<Rightarrow> string \<Rightarrow> string \<times> string \<Rightarrow> results \<times> 'w session
     \<Rightarrow> results \<times> 'w session" where
  "set_one srv gh visibility_action p st =
     (case (p, st) of ((owner, repo_name), (results, s)) \<Rightarrow>
        (let make_private = (visibility_action = ''private'')
         in case toggle_repository_visibility srv gh owner repo_name make_private s of
              ((success, message), s1) \<Rightarrow>
                (AList.update (repo_key (owner, repo_name))
                   (success, message, visibility_action) results, s1)))"

text \<open>The two loops, from the empty dictionary.\<close>

definition batch_loop ::
  "'w server \<Rightarrow> github_client \<Rightarrow> string \<Rightarrow> (string \<times> string) list \<Rightarrow> 'w session
     \<Rightarrow> results \<times> 'w session" where
  "batch_loop srv gh visibility_action repo_list s =
     (if visibility_action = ''toggle''
      then fold (toggle_one srv gh) repo_list ([], s)
      else fold (set_one srv gh visibility_action) repo_list ([], s))"

text \<open>
  \<open>BotHandlers._execute_batch_toggle\<close>, up to the dictionary of results: what it does
  afterwards (the status cache, the audit entries and the text of the reply) reads
  \<open>results\<close> and sends nothing to the remote service.
\<close>

datatype batch_reply =
    BatchNoActiveAPI
  | BatchResults results

definition execute_batch_toggle ::
  "cipher \<Rightarrow> github_apis \<Rightarrow> 'w server \<Rightarrow> int \<Rightarrow> string \<Rightarrow> string \<Rightarrow> 'w session
     \<Rightarrow> batch_reply \<times> 'w session" where
  "execute_batch_toggle c db srv uid visibility_action repos_str s =
     (case get_active_api c db uid of
        None \<Rightarrow> (BatchNoActiveAPI, s)
      | Some active_api \<Rightarrow>
          (let github_api = \<lparr>client_token = github_token active_api,
                             client_username = github_username active_api\<rparr>;
               repo_list = parse_repository_list repos_str (github_username active_api)
           in case batch_loop srv github_api visibility_action repo_list s of
                (results, s') \<Rightarrow> (BatchResults results, s')))"

text \<open>
  \<open>BotHandlers.batch_toggle_command\<close>: the replies it can send. \<open>Confirmation\<close> is the
  message with the button whose callback data is
  \<open>batch_confirm:{visibility_action}:{repos_str}\<close>. The list of administrators
  (\<open>Config.ADMIN_USER_IDS\<close>) comes from the environment: a parameter.
\<close>

datatype command_reply =
    AccessDenied
  | NoActiveAPI
  | InvalidUsage
  | MissingRepositoryList
  | InvalidRepositoryList
  | TooManyRepositories nat
  | Confirmation string string

definition is_authorized :: "int list \<Rightarrow> int \<Rightarrow> bool" where
  "is_authorized admins uid = (uid \<in> set admins)"

text \<open>
  The block of the command that reads the arguments: the action and the string of
  repositories, or the reply that ends the command.
\<close>

definition parse_arguments :: "string list \<Rightarrow> command_reply + string \<times> string" where
  "parse_arguments args =
     (case args of
        [] \<Rightarrow> Inl InvalidUsage
      | arg0 # rest \<Rightarrow>
          (if lower arg0 \<in> set [''private'', ''public'']
           then (if length args < 2 then Inl MissingRepositoryList
                 else Inr (lower arg0, join '','' rest))
           else Inr (''toggle'', join '','' args)))"

definition batch_toggle_command ::
  "int list \<Rightarrow> cipher \<Rightarrow> github_apis \<Rightarrow> int \<Rightarrow> string list \<Rightarrow> command_reply" where
  "batch_toggle_command admins c db uid args =
     (if \<not> is_authorized admins uid then AccessDenied
      else case get_active_api c db uid of
        None \<Rightarrow> NoActiveAPI
      | Some active_api \<Rightarrow>
          (case parse_arguments args of
             Inl r \<Rightarrow> r
           | Inr (visibility_action, repos_str) \<Rightarrow>
               (let repo_list = parse_repository_list repos_str (github_username active_api)
                in if repo_list = [] then InvalidRepositoryList
                   else if length repo_list > 10
                   then TooManyRepositories (length repo_list)
                   else Confirmation visibility_action repos_str)))"

text \<open>
  The whole path of a batch: the command, and, when it asked for confirmation and the
  user pressed the button, \<open>button_callback\<close>, which takes the action and the list out
  of the callback data and calls \<open>_execute_batch_toggle\<close> with them. Every other reply
  of the command ends the path with the session as it was.
\<close>

datatype flow_reply =
    Replied command_reply
  | Executed batch_reply

definition batch_flow ::
  "int list \<Rightarrow> cipher \<Rightarrow> github_apis \<Rightarrow> 'w server \<Rightarrow> int \<Rightarrow> string list \<Rightarrow> 'w session
     \<Rightarrow> flow_reply \<times> 'w session" where
  "batch_flow admins c db srv uid args s =
     (case batch_toggle_command admins c db uid args of
        Confirmation visibility_action repos_str \<Rightarrow>
          (case execute_batch_toggle c db srv uid visibility_action repos_str s of
             (r, s') \<Rightarrow> (Executed r, s'))
      | AccessDenied \<Rightarrow> (Replied AccessDenied, s)
      | NoActiveAPI \<Rightarrow> (Replied NoActiveAPI, s)
      | InvalidUsage \<Rightarrow> (Replied InvalidUsage, s)
      | MissingRepositoryList \<Rightarrow> (Replied MissingRepositoryList, s)
      | InvalidRepositoryList \<Rightarrow> (Replied InvalidRepositoryList, s)
      | TooManyRepositories n \<Rightarrow> (Replied (TooManyRepositories n), s))"

text \<open>
  Remote services for evaluating the orchestrator, without a state of their own: one
  that has every repository, public, and accepts every change; one that answers every
  request with status 500; and one whose transport fails on the repository \<open>b/y\<close>.
\<close>

definition public_repo :: "string \<Rightarrow> string \<Rightarrow> repo_json" where
  "public_repo owner repo_name =
     \<lparr>json_name = repo_name, json_full_name = owner @ ''/'' @ repo_name,
      json_private = False, json_owner_login = owner, json_description = None,
      json_html_url = ''https://github.com/'' @ owner @ ''/'' @ repo_name,
      json_created_at = ''2024-01-01T00:00:00Z'', json_updated_at = ''2024-01-02T00:00:00Z'',
      json_size = 1, json_language = None\<rparr>"

fun ok_server :: "unit server" where
  "ok_server tok w (GetRepo owner repo_name) = (Reply 200 (RepoBody (public_repo owner repo_name)), w)"
| "ok_server tok w (PatchRepo owner repo_name make_private) =
     (Reply 200 (RepoBody (public_repo owner repo_name)), w)"

definition failing_server :: "unit server" where
  "failing_server tok w req = (Reply 500 (MessageBody (Some ''Server Error'')), w)"

fun flaky_server :: "unit server" where
  "flaky_server tok w (GetRepo owner repo_name) = (Reply 200 (RepoBody (public_repo owner repo_name)), w)"
| "flaky_server tok w (PatchRepo owner repo_name make_private) =
     (if (owner, repo_name) = (''b'', ''y'') then (Raised ''Connection reset'', w)
      else (Reply 200 (RepoBody (public_repo owner repo_name)), w))"

text \<open>
  A service that counts the requests that change a repository, accepts the first
  and refuses the later ones.
\<close>

fun once_server :: "nat server" where
  "once_server tok w (GetRepo owner repo_name) = (Reply 200 (RepoBody (public_repo owner repo_name)), w)"
| "once_server tok w (PatchRepo owner repo_name make_private) =
     (if w = 0 then (Reply 200 (RepoBody (public_repo owner repo_name)), Suc w)
      else (Reply 422 (MessageBody (Some ''Visibility is already private.'')), Suc w))"

definition counting_session :: "nat session" where
  "counting_session = \<lparr>world = 0, requests = []\<rparr>"


definition new_session :: "unit session" where
  "new_session = \<lparr>world = (), requests = []\<rparr>"

definition example_client :: github_client where
  "example_client = \<lparr>client_token = ''ghp_1'', client_username = ''octo''\<rparr>"

text \<open>The requests that read a repository.\<close>

fun is_get :: "request \<Rightarrow> bool" where
  "is_get (GetRepo owner repo_name) = True"
| "is_get (PatchRepo owner repo_name make_private) = False"

section \<open>Properties of the vault\<close>

subsection \<open>The operations, unfolded\<close>


lemma filter_named_map:
  assumes "\<And>r. user_id (f r) = user_id r" "\<And>r. api_name (f r) = api_name r"
  shows "filter (named uid name) (map f db) = map f (filter (named uid name) db)"
  by (induction db) (simp_all add: named_def assms)

lemma set_active_api_eq:
  "set_active_api db uid name =
     (if sql_text_ok name \<and> filter (named uid name) db \<noteq> []
      then (True, map (\<lambda>r. if user_id r = uid then r\<lparr>is_active := (api_name r = name)\<rparr> else r) db)
      else (False, db))"
proof -
  have len: "length (filter (named uid name) (map (\<lambda>r. if of_user uid r then r\<lparr>is_active := False\<rparr> else r) db))
        = length (filter (named uid name) db)"
    by (subst filter_named_map) simp_all
  have m: "map (\<lambda>r. if named uid name r then r\<lparr>is_active := True\<rparr> else r)
             (map (\<lambda>r. if of_user uid r then r\<lparr>is_active := False\<rparr> else r) db)
         = map (\<lambda>r. if user_id r = uid then r\<lparr>is_active := (api_name r = name)\<rparr> else r) db"
    by (auto simp: named_def of_user_def)
  show ?thesis
    unfolding set_active_api_def Let_def execute_update_def get_connection_def
      commit_def put_connection_def
    using len m by (simp add: len m)
qed

lemma add_github_api_eq:
  "add_github_api c now db uid name token username =
     (case cipher_encrypt c token of
        Inl e \<Rightarrow> (False, db)
      | Inr ct \<Rightarrow>
          if sql_text_ok name \<and> sql_text_ok ct \<and> sql_text_ok username
          then (True,
                if filter (named uid name) db \<noteq> []
                then map (\<lambda>r. if named uid name r
                               then r\<lparr>github_token := ct, github_username := username,
                                      created_at := now\<rparr>
                               else r) db
                else db @ [\<lparr>user_id = uid, api_name = name, github_token = ct,
                            github_username = username, is_active = False, created_at = now\<rparr>])
          else (False, db))"
  unfolding add_github_api_def add_github_api_try_def encrypt_token_def Let_def
    execute_update_def get_connection_def commit_def put_connection_def execute_select_def
    execute_insert_def
  by (simp split: sum.splits)

lemma remove_github_api_eq:
  "remove_github_api db uid name =
     (if sql_text_ok name then (True, filter (\<lambda>r. \<not> named uid name r) db) else (False, db))"
  unfolding remove_github_api_def execute_delete_def get_connection_def commit_def
    put_connection_def Let_def
  by simp

lemma get_active_api_eq:
  "get_active_api c db uid =
     (case filter (active_of uid) db of
        [] \<Rightarrow> None
      | r # _ \<Rightarrow> (case cipher_decrypt c (github_token r) of
                    Inl e \<Rightarrow> None
                  | Inr token \<Rightarrow> Some (r\<lparr>github_token := token\<rparr>)))"
  unfolding get_active_api_def get_active_api_try_def decrypt_token_def execute_select_def
    get_connection_def
  by (simp split: list.splits sum.splits)

lemma active_count_no_rows: "\<forall>r\<in>set db. user_id r \<noteq> uid \<Longrightarrow> active_count db uid = 0"
  by (induction db) (auto simp: active_count_def active_of_def)

lemma vault_inv_iff:
  "vault_inv db = (unique_names db \<and> (\<forall>uid. active_count db uid \<le> 1) \<and>
                   (\<forall>r\<in>set db. sql_text_ok (api_name r)))"
proof -
  have "list_all (\<lambda>r. active_count db (user_id r) \<le> 1) db = (\<forall>uid. active_count db uid \<le> 1)"
  proof
    assume a: "list_all (\<lambda>r. active_count db (user_id r) \<le> 1) db"
    show "\<forall>uid. active_count db uid \<le> 1"
    proof
      fix uid
      show "active_count db uid \<le> 1"
      proof (cases "\<exists>r\<in>set db. user_id r = uid")
        case True
        then show ?thesis using a by (auto simp: list_all_iff)
      next
        case False
        then show ?thesis using active_count_no_rows[of db uid] by simp
      qed
    qed
  next
    assume "\<forall>uid. active_count db uid \<le> 1"
    then show "list_all (\<lambda>r. active_count db (user_id r) \<le> 1) db"
      by (simp add: list_all_iff)
  qed
  then show ?thesis by (simp add: vault_inv_def list_all_iff)
qed

lemma unique_names_named_le1:
  "unique_names db \<Longrightarrow> length (filter (named uid name) db) \<le> 1"
proof (induction db)
  case Nil
  then show ?case by simp
next
  case (Cons r db)
  then have u: "unique_names db" and notin: "(user_id r, api_name r) \<notin> (\<lambda>r. (user_id r, api_name r)) ` set db"
    by (simp_all add: unique_names_def)
  show ?case
  proof (cases "named uid name r")
    case True
    then have "filter (named uid name) db = []"
      using notin by (force simp: named_def filter_empty_conv image_iff)
    with True show ?thesis by simp
  next
    case False
    then show ?thesis using Cons.IH[OF u] by simp
  qed
qed

lemma unique_names_map:
  assumes "\<And>r. user_id (f r) = user_id r" "\<And>r. api_name (f r) = api_name r"
  shows "unique_names (map f db) = unique_names db"
  by (simp add: unique_names_def comp_def assms)

lemma set_active_count_same:
  "active_count (map (\<lambda>r. if user_id r = uid then r\<lparr>is_active := (api_name r = name)\<rparr> else r) db) uid
     = length (filter (named uid name) db)"
  by (induction db) (auto simp: active_count_def active_of_def named_def)

lemma set_active_count_other:
  "uid' \<noteq> uid \<Longrightarrow>
   active_count (map (\<lambda>r. if user_id r = uid then r\<lparr>is_active := (api_name r = name)\<rparr> else r) db) uid'
     = active_count db uid'"
  by (induction db) (auto simp: active_count_def active_of_def)

lemma vault_inv_set_active: "vault_inv db \<Longrightarrow> vault_inv (snd (set_active_api db uid name))"
proof (cases "sql_text_ok name \<and> filter (named uid name) db \<noteq> []")
  case False
  assume v: "vault_inv db"
  from False have "set_active_api db uid name = (False, db)"
    by (auto simp: set_active_api_eq)
  with v show ?thesis by simp
next
  case True
  assume v: "vault_inv db"
  let ?db' = "map (\<lambda>r. if user_id r = uid then r\<lparr>is_active := (api_name r = name)\<rparr> else r) db"
  from v have u: "unique_names db" and a: "\<forall>uid. active_count db uid \<le> 1"
    and n: "\<forall>r\<in>set db. sql_text_ok (api_name r)"
    by (simp_all add: vault_inv_iff)
  have u': "unique_names ?db'" using u by (simp add: unique_names_map)
  have a': "\<forall>uid'. active_count ?db' uid' \<le> 1"
  proof
    fix uid'
    show "active_count ?db' uid' \<le> 1"
      using unique_names_named_le1[OF u, of uid name] a
      by (cases "uid' = uid") (simp_all add: set_active_count_same set_active_count_other)
  qed
  have n': "\<forall>r\<in>set ?db'. sql_text_ok (api_name r)" using n by auto
  from u' a' n' have "vault_inv ?db'" by (simp add: vault_inv_iff)
  with True show ?thesis by (simp add: set_active_api_eq)
qed

lemma add_update_count:
  "active_count (map (\<lambda>r. if named uid name r
        then r\<lparr>github_token := ct, github_username := username, created_at := now\<rparr> else r) db) uid'
   = active_count db uid'"
  by (induction db) (auto simp: active_count_def active_of_def)

lemma add_insert_count:
  "active_count (db @ [\<lparr>user_id = uid, api_name = name, github_token = ct,
       github_username = username, is_active = False, created_at = now\<rparr>]) uid' = active_count db uid'"
  by (simp add: active_count_def active_of_def)

lemma add_insert_unique:
  "filter (named uid name) db = [] \<Longrightarrow> unique_names db \<Longrightarrow>
   unique_names (db @ [\<lparr>user_id = uid, api_name = name, github_token = ct,
       github_username = username, is_active = False, created_at = now\<rparr>])"
  by (auto simp: unique_names_def filter_empty_conv named_def)

lemma vault_inv_add: "vault_inv db \<Longrightarrow> vault_inv (snd (add_github_api c now db uid name token username))"
  unfolding vault_inv_iff add_github_api_eq
  by (auto split: sum.splits simp: add_update_count add_insert_count add_insert_unique unique_names_map)

lemma remove_count: "active_count (filter (\<lambda>r. \<not> named uid name r) db) uid' \<le> active_count db uid'"
  unfolding active_count_def
  by (induction db) auto

lemma vault_inv_remove: "vault_inv db \<Longrightarrow> vault_inv (snd (remove_github_api db uid name))"
proof (cases "sql_text_ok name")
  case False
  assume "vault_inv db"
  with False show ?thesis by (simp add: remove_github_api_eq)
next
  case True
  assume v: "vault_inv db"
  let ?db' = "filter (\<lambda>r. \<not> named uid name r) db"
  from v have u: "unique_names db" and a: "\<forall>uid. active_count db uid \<le> 1"
    and n: "\<forall>r\<in>set db. sql_text_ok (api_name r)"
    by (simp_all add: vault_inv_iff)
  have u': "unique_names ?db'" using u by (simp add: unique_names_def distinct_map_filter)
  have a': "\<forall>uid'. active_count ?db' uid' \<le> 1"
    using a remove_count le_trans by blast
  have n': "\<forall>r\<in>set ?db'. sql_text_ok (api_name r)" using n by simp
  from u' a' n' have "vault_inv ?db'" by (simp add: vault_inv_iff)
  with True show ?thesis by (simp add: remove_github_api_eq)
qed

lemma vault_inv_step: "vault_inv db \<Longrightarrow> vault_inv (vault_step c db x)"
  by (cases x) (simp_all add: vault_inv_add vault_inv_set_active vault_inv_remove)

lemma vault_inv_observations:
  "vault_inv db \<Longrightarrow> list_all vault_inv (observations c db xs)"
  by (induction xs arbitrary: db) (simp_all add: vault_inv_step)

lemma vault_inv_empty: "vault_inv []"
  by (simp add: vault_inv_def unique_names_def)

lemma example_vault_eq: "example_vault = [\<lparr>user_id = 1, api_name = ''work'', github_token = ''1_phg'',
     github_username = ''octo'', is_active = True, created_at = 0\<rparr>]"
  by (simp add: example_vault_def example_ops_def toy_cipher_def set_active_api_eq add_github_api_eq
        named_def sql_text_ok_def)

lemma filter_active_after_set:
  "filter (active_of uid) (map (\<lambda>r. if user_id r = uid then r\<lparr>is_active := (api_name r = name)\<rparr> else r) db)
     = map (\<lambda>r. r\<lparr>is_active := True\<rparr>) (filter (named uid name) db)"
  by (induction db) (auto simp: active_of_def named_def)

lemma named_singleton:
  assumes "unique_names db" "filter (named uid name) db \<noteq> []"
  shows "\<exists>r. filter (named uid name) db = [r] \<and> user_id r = uid \<and> api_name r = name"
proof -
  from unique_names_named_le1[OF assms(1), of uid name] assms(2)
  obtain r where r: "filter (named uid name) db = [r]"
    by (cases "filter (named uid name) db") auto
  then have "r \<in> set (filter (named uid name) db)" by simp
  then have "named uid name r" by simp
  with r show ?thesis by (auto simp: named_def)
qed

subsection \<open>At most one active credential\<close>

text \<open>
  C1, as the code has it. In every table that a sequence of calls of the three writing
  operations goes through, starting with the empty table, every user has at most one
  active row. There a call of \<open>set_active_api\<close> with a name that the user has no row
  for returns False and leaves the table as it is: it does not commit, so the row
  that was active stays active. A call with a name that the user has a row for
  returns True, and afterwards that row is the user's only active one.
\<close>

theorem vault_at_most_one_active:
  "list_all (\<lambda>db. active_count db uid \<le> 1 \<and>
        (filter (named uid name) db = [] \<longrightarrow> set_active_api db uid name = (False, db)) \<and>
        (filter (named uid name) db \<noteq> [] \<longrightarrow>
           fst (set_active_api db uid name) \<and>
           map api_name (filter (active_of uid) (snd (set_active_api db uid name))) = [name]))
     (observations c [] ops)"
proof -
  have inv: "list_all vault_inv (observations c [] ops)"
    by (rule vault_inv_observations[OF vault_inv_empty])
  have "\<And>db. vault_inv db \<Longrightarrow> active_count db uid \<le> 1 \<and>
        (filter (named uid name) db = [] \<longrightarrow> set_active_api db uid name = (False, db)) \<and>
        (filter (named uid name) db \<noteq> [] \<longrightarrow>
           fst (set_active_api db uid name) \<and>
           map api_name (filter (active_of uid) (snd (set_active_api db uid name))) = [name])"
  proof -
    fix db assume v: "vault_inv db"
    then have u: "unique_names db" and a: "active_count db uid \<le> 1"
      and n: "\<forall>r\<in>set db. sql_text_ok (api_name r)"
      by (simp_all add: vault_inv_iff)
    have ok: "filter (named uid name) db \<noteq> [] \<Longrightarrow> sql_text_ok name"
    proof -
      assume ne: "filter (named uid name) db \<noteq> []"
      from named_singleton[OF u ne] obtain r where
        r: "filter (named uid name) db = [r]" "api_name r = name" by blast
      then have "r \<in> set (filter (named uid name) db)" by simp
      then have "r \<in> set db" by simp
      with n r(2) show ?thesis by auto
    qed
    have s: "filter (named uid name) db \<noteq> [] \<Longrightarrow>
        map api_name (filter (active_of uid) (snd (set_active_api db uid name))) = [name]"
    proof -
      assume ne: "filter (named uid name) db \<noteq> []"
      from named_singleton[OF u ne] obtain r where
        "filter (named uid name) db = [r]" "api_name r = name" by blast
      then show ?thesis using ok[OF ne] by (simp add: set_active_api_eq filter_active_after_set)
    qed
    show "active_count db uid \<le> 1 \<and>
        (filter (named uid name) db = [] \<longrightarrow> set_active_api db uid name = (False, db)) \<and>
        (filter (named uid name) db \<noteq> [] \<longrightarrow>
           fst (set_active_api db uid name) \<and>
           map api_name (filter (active_of uid) (snd (set_active_api db uid name))) = [name])"
      using a s ok by (auto simp: set_active_api_eq)
  qed
  with inv show ?thesis
    unfolding list_all_iff by blast
qed

theorem vault_at_most_one_active_witness:
  "example_vault \<in> set (observations toy_cipher [] example_ops) \<and>
   filter (named 1 ''home'') example_vault = [] \<and>
   active_count example_vault 1 \<le> 1 \<and>
   set_active_api example_vault 1 ''home'' = (False, example_vault) \<and>
   filter (named 1 ''work'') example_vault \<noteq> [] \<and>
   map api_name (filter (active_of 1) (snd (set_active_api example_vault 1 ''work''))) = [''work'']"
proof -
  have obs: "observations toy_cipher [] example_ops \<noteq> []"
    by (simp add: example_ops_def)
  have mem: "example_vault \<in> set (observations toy_cipher [] example_ops)"
    unfolding example_vault_def using obs by (rule last_in_set)
  have h1: "filter (named 1 ''home'') example_vault = []"
    by (simp add: example_vault_eq named_def)
  have h2: "filter (named 1 ''work'') example_vault \<noteq> []"
    by (simp add: example_vault_eq named_def)
  from vault_at_most_one_active[of 1 "''home''" toy_cipher example_ops] mem h1
  have a: "active_count example_vault 1 \<le> 1 \<and> set_active_api example_vault 1 ''home'' = (False, example_vault)"
    unfolding list_all_iff by blast
  from vault_at_most_one_active[of 1 "''work''" toy_cipher example_ops] mem h2
  have b: "map api_name (filter (active_of 1) (snd (set_active_api example_vault 1 ''work''))) = [''work'']"
    unfolding list_all_iff by blast
  from mem h1 h2 a b show ?thesis by blast
qed

text \<open>
  C1 as the spec states it asks for no active credential after a call that names a
  missing credential. With the credential \<open>work\<close> active, the call for \<open>home\<close> returns
  False and \<open>work\<close> is still active.
\<close>

theorem set_active_api_missing_name_counterexample:
  "filter (named 1 ''home'') example_vault = [] \<and>
   fst (set_active_api example_vault 1 ''home'') = False \<and>
   active_count (snd (set_active_api example_vault 1 ''home'')) 1 = 1 \<and>
   map api_name (filter (active_of 1) (snd (set_active_api example_vault 1 ''home''))) = [''work'']"
  by (simp add: example_vault_eq set_active_api_eq named_def active_count_def active_of_def
        sql_text_ok_def)

subsection \<open>Adding a credential under a name that exists\<close>

lemma add_update_named:
  "filter (named uid name) (map (\<lambda>r. if named uid name r then f r else r) db)
     = filter (named uid name) (map f (filter (named uid name) db))"
  by (induction db) auto

lemma add_update_others:
  "filter (\<lambda>r. \<not> named uid name r) (map (\<lambda>r. if named uid name r
        then r\<lparr>github_token := ct, github_username := username, created_at := now\<rparr> else r) db)
   = filter (\<lambda>r. \<not> named uid name r) db"
  by (induction db) (auto simp: named_def)

lemma add_existing_rows:
  assumes "filter (named uid name) db \<noteq> []" "encrypt_token c token = Inr ct"
    and "sql_text_ok name" "sql_text_ok ct" "sql_text_ok username"
  shows "add_github_api c now db uid name token username
     = (True, map (\<lambda>r. if named uid name r
                 then r\<lparr>github_token := ct, github_username := username, created_at := now\<rparr>
                 else r) db)"
  using assms by (auto simp: add_github_api_eq encrypt_token_def split: sum.splits)

lemma add_new_rows:
  assumes "filter (named uid name) db = []" "encrypt_token c token = Inr ct"
    and "sql_text_ok name" "sql_text_ok ct" "sql_text_ok username"
  shows "add_github_api c now db uid name token username
     = (True, db @ [\<lparr>user_id = uid, api_name = name, github_token = ct,
               github_username = username, is_active = False, created_at = now\<rparr>])"
  using assms by (auto simp: add_github_api_eq encrypt_token_def split: sum.splits)

lemma add_refused:
  assumes "\<forall>ct. encrypt_token c token = Inr ct \<longrightarrow>
             \<not> (sql_text_ok name \<and> sql_text_ok ct \<and> sql_text_ok username)"
  shows "add_github_api c now db uid name token username = (False, db)"
  using assms by (auto simp: add_github_api_eq encrypt_token_def split: sum.splits)

lemma named_after_existing:
  assumes "filter (named uid name) db = [r]" "encrypt_token c token = Inr ct"
    and "sql_text_ok name" "sql_text_ok ct" "sql_text_ok username"
  shows "filter (named uid name) (snd (add_github_api c now db uid name token username))
     = [r\<lparr>github_token := ct, github_username := username, created_at := now\<rparr>]"
proof -
  have "r \<in> set (filter (named uid name) db)" using assms(1) by simp
  then have n: "named uid name r" by simp
  have ne: "filter (named uid name) db \<noteq> []" using assms(1) by simp
  show ?thesis
    unfolding add_existing_rows[OF ne assms(2-5)] snd_conv add_update_named assms(1)
    using n by (simp add: named_def)
qed

lemma named_after_new:
  assumes "filter (named uid name) db = []" "encrypt_token c token = Inr ct"
    and "sql_text_ok name" "sql_text_ok ct" "sql_text_ok username"
  shows "filter (named uid name) (snd (add_github_api c now db uid name token username))
     = [\<lparr>user_id = uid, api_name = name, github_token = ct,
               github_username = username, is_active = False, created_at = now\<rparr>]"
  unfolding add_new_rows[OF assms] using assms(1) by (simp add: named_def)

text \<open>
  C2, as the code has it. Let the names of the table be unique. When both encryptions
  succeed and the name, the two usernames and the two ciphertexts hold no NUL
  character: a call of \<open>add_github_api\<close> for a name that the user has a row for
  returns True and overwrites the token, the username and the time of that row;
  \<open>is_active\<close> keeps its value and every other row is as before. Two calls in sequence
  for the same name leave exactly one row of that name, with the second token,
  username and time; its \<open>is_active\<close> is the one that the row had before the two
  calls, and False when the first call created the row. When the encryption fails, or
  the name, the username or the ciphertext holds a NUL character, the call returns
  False and the table is as before.
\<close>

theorem add_github_api_twice:
  assumes "unique_names db"
  shows "(encrypt_token c1 token1 = Inr ct1 \<longrightarrow> encrypt_token c2 token2 = Inr ct2 \<longrightarrow>
          sql_text_ok name \<longrightarrow> sql_text_ok ct1 \<longrightarrow> sql_text_ok username1 \<longrightarrow>
          sql_text_ok ct2 \<longrightarrow> sql_text_ok username2 \<longrightarrow>
          (filter (named uid name) db = [] \<longrightarrow>
             filter (named uid name)
               (snd (add_github_api c2 now2
                       (snd (add_github_api c1 now1 db uid name token1 username1))
                       uid name token2 username2))
               = [\<lparr>user_id = uid, api_name = name, github_token = ct2,
                   github_username = username2, is_active = False, created_at = now2\<rparr>]) \<and>
          (filter (named uid name) db \<noteq> [] \<longrightarrow>
             (\<exists>r. filter (named uid name) db = [r] \<and>
                fst (add_github_api c1 now1 db uid name token1 username1) \<and>
                filter (named uid name) (snd (add_github_api c1 now1 db uid name token1 username1))
                  = [r\<lparr>github_token := ct1, github_username := username1, created_at := now1\<rparr>] \<and>
                filter (\<lambda>x. \<not> named uid name x)
                    (snd (add_github_api c1 now1 db uid name token1 username1))
                  = filter (\<lambda>x. \<not> named uid name x) db \<and>
                filter (named uid name)
                  (snd (add_github_api c2 now2
                          (snd (add_github_api c1 now1 db uid name token1 username1))
                          uid name token2 username2))
                  = [r\<lparr>github_token := ct2, github_username := username2,
                       created_at := now2\<rparr>]))) \<and>
         ((\<forall>ct. encrypt_token c1 token1 = Inr ct \<longrightarrow>
                \<not> (sql_text_ok name \<and> sql_text_ok ct \<and> sql_text_ok username1)) \<longrightarrow>
          add_github_api c1 now1 db uid name token1 username1 = (False, db))"
proof (intro conjI impI)
  let ?db1 = "snd (add_github_api c1 now1 db uid name token1 username1)"
  assume e1: "encrypt_token c1 token1 = Inr ct1" and e2: "encrypt_token c2 token2 = Inr ct2"
    and ok: "sql_text_ok name" "sql_text_ok ct1" "sql_text_ok username1"
            "sql_text_ok ct2" "sql_text_ok username2"
    and new: "filter (named uid name) db = []"
  have b: "filter (named uid name) ?db1
             = [\<lparr>user_id = uid, api_name = name, github_token = ct1,
                 github_username = username1, is_active = False, created_at = now1\<rparr>]"
    by (rule named_after_new[OF new e1 ok(1,2,3)])
  show "filter (named uid name) (snd (add_github_api c2 now2 ?db1 uid name token2 username2))
          = [\<lparr>user_id = uid, api_name = name, github_token = ct2,
              github_username = username2, is_active = False, created_at = now2\<rparr>]"
    using named_after_existing[OF b e2 ok(1,4,5), of now2] by simp
next
  let ?db1 = "snd (add_github_api c1 now1 db uid name token1 username1)"
  assume e1: "encrypt_token c1 token1 = Inr ct1" and e2: "encrypt_token c2 token2 = Inr ct2"
    and ok: "sql_text_ok name" "sql_text_ok ct1" "sql_text_ok username1"
            "sql_text_ok ct2" "sql_text_ok username2"
    and ne: "filter (named uid name) db \<noteq> []"
  from named_singleton[OF assms ne] obtain r where r: "filter (named uid name) db = [r]"
    by blast
  have a: "fst (add_github_api c1 now1 db uid name token1 username1)"
    by (simp add: add_existing_rows[OF ne e1 ok(1,2,3)])
  have b: "filter (named uid name) ?db1
             = [r\<lparr>github_token := ct1, github_username := username1, created_at := now1\<rparr>]"
    by (rule named_after_existing[OF r e1 ok(1,2,3)])
  have o: "filter (\<lambda>x. \<not> named uid name x) ?db1 = filter (\<lambda>x. \<not> named uid name x) db"
    by (simp add: add_existing_rows[OF ne e1 ok(1,2,3)] add_update_others)
  have c: "filter (named uid name) (snd (add_github_api c2 now2 ?db1 uid name token2 username2))
             = [r\<lparr>github_token := ct2, github_username := username2, created_at := now2\<rparr>]"
    using named_after_existing[OF b e2 ok(1,4,5), of now2] by simp
  from r a b o c
  show "\<exists>r. filter (named uid name) db = [r] \<and>
          fst (add_github_api c1 now1 db uid name token1 username1) \<and>
          filter (named uid name) ?db1
            = [r\<lparr>github_token := ct1, github_username := username1, created_at := now1\<rparr>] \<and>
          filter (\<lambda>x. \<not> named uid name x) ?db1 = filter (\<lambda>x. \<not> named uid name x) db \<and>
          filter (named uid name) (snd (add_github_api c2 now2 ?db1 uid name token2 username2))
            = [r\<lparr>github_token := ct2, github_username := username2, created_at := now2\<rparr>]"
    by blast
next
  assume "\<forall>ct. encrypt_token c1 token1 = Inr ct \<longrightarrow>
                \<not> (sql_text_ok name \<and> sql_text_ok ct \<and> sql_text_ok username1)"
  then show "add_github_api c1 now1 db uid name token1 username1 = (False, db)"
    by (rule add_refused)
qed

text \<open>
  The theorem on the table with the active credential \<open>work\<close>, added twice more: one
  row, the last token and username, still active; on the empty table, where the row
  that two calls leave is inactive; and for a username with a NUL character, where the
  call returns False and the table is as before.
\<close>

theorem add_github_api_twice_witness:
  "unique_names example_vault \<and> unique_names [] \<and>
   filter (named 1 ''work'') example_vault \<noteq> [] \<and>
   filter (named 1 ''work'') [] = [] \<and>
   encrypt_token toy_cipher ''ghp_2'' = Inr ''2_phg'' \<and>
   encrypt_token toy_cipher ''ghp_3'' = Inr ''3_phg'' \<and>
   sql_text_ok ''work'' \<and> sql_text_ok ''2_phg'' \<and> sql_text_ok ''hubot'' \<and>
   sql_text_ok ''3_phg'' \<and> sql_text_ok ''mona'' \<and>
   filter (named 1 ''work'')
     (snd (add_github_api toy_cipher 8
             (snd (add_github_api toy_cipher 7 example_vault 1 ''work'' ''ghp_2'' ''hubot''))
             1 ''work'' ''ghp_3'' ''mona''))
     = [\<lparr>user_id = 1, api_name = ''work'', github_token = ''3_phg'',
         github_username = ''mona'', is_active = True, created_at = 8\<rparr>] \<and>
   filter (named 1 ''work'')
     (snd (add_github_api toy_cipher 8
             (snd (add_github_api toy_cipher 7 [] 1 ''work'' ''ghp_2'' ''hubot''))
             1 ''work'' ''ghp_3'' ''mona''))
     = [\<lparr>user_id = 1, api_name = ''work'', github_token = ''3_phg'',
         github_username = ''mona'', is_active = False, created_at = 8\<rparr>] \<and>
   \<not> sql_text_ok [CHR ''h'', CHR 0x00] \<and>
   add_github_api toy_cipher 7 example_vault 1 ''work'' ''ghp_2'' [CHR ''h'', CHR 0x00]
     = (False, example_vault)"
proof -
  have u: "unique_names example_vault"
    by (simp add: example_vault_eq unique_names_def)
  have u0: "unique_names []"
    by (simp add: unique_names_def)
  have n: "filter (named 1 ''work'') example_vault \<noteq> []"
    by (simp add: example_vault_eq named_def)
  have n0: "filter (named 1 ''work'') [] = []"
    by simp
  have e1: "encrypt_token toy_cipher ''ghp_2'' = Inr ''2_phg''"
    by (simp add: encrypt_token_def toy_cipher_def)
  have e2: "encrypt_token toy_cipher ''ghp_3'' = Inr ''3_phg''"
    by (simp add: encrypt_token_def toy_cipher_def)
  have ok: "sql_text_ok ''work''" "sql_text_ok ''2_phg''" "sql_text_ok ''hubot''"
           "sql_text_ok ''3_phg''" "sql_text_ok ''mona''"
    by (simp_all add: sql_text_ok_def)
  have bad: "\<not> sql_text_ok [CHR ''h'', CHR 0x00]"
    by (simp add: sql_text_ok_def)
  have f: "filter (named 1 ''work'') example_vault =
      [\<lparr>user_id = 1, api_name = ''work'', github_token = ''1_phg'',
        github_username = ''octo'', is_active = True, created_at = 0\<rparr>]"
    by (simp add: example_vault_eq named_def)
  from add_github_api_twice[OF u, of toy_cipher "''ghp_2''" "''2_phg''" toy_cipher "''ghp_3''"
         "''3_phg''" "''work''" "''hubot''" "''mona''" 1 8 7] n f e1 e2 ok
  have a: "filter (named 1 ''work'')
     (snd (add_github_api toy_cipher 8
             (snd (add_github_api toy_cipher 7 example_vault 1 ''work'' ''ghp_2'' ''hubot''))
             1 ''work'' ''ghp_3'' ''mona''))
     = [\<lparr>user_id = 1, api_name = ''work'', github_token = ''3_phg'',
         github_username = ''mona'', is_active = True, created_at = 8\<rparr>]"
    by auto
  from add_github_api_twice[OF u0, of toy_cipher "''ghp_2''" "''2_phg''" toy_cipher "''ghp_3''"
         "''3_phg''" "''work''" "''hubot''" "''mona''" 1 8 7] n0 e1 e2 ok
  have b: "filter (named 1 ''work'')
     (snd (add_github_api toy_cipher 8
             (snd (add_github_api toy_cipher 7 [] 1 ''work'' ''ghp_2'' ''hubot''))
             1 ''work'' ''ghp_3'' ''mona''))
     = [\<lparr>user_id = 1, api_name = ''work'', github_token = ''3_phg'',
         github_username = ''mona'', is_active = False, created_at = 8\<rparr>]"
    by blast
  from add_github_api_twice[OF u, of toy_cipher "''ghp_2''" _ _ _ _ "''work''"
         "[CHR ''h'', CHR 0x00]" _ 1 _ 7] bad
  have c: "add_github_api toy_cipher 7 example_vault 1 ''work'' ''ghp_2'' [CHR ''h'', CHR 0x00]
     = (False, example_vault)"
    by blast
  from u u0 n n0 e1 e2 ok bad a b c show ?thesis by blast
qed

text \<open>
  C2 as the spec states it has the flag cleared by the second add. The credential
  \<open>work\<close> is active; adding it again under the same name leaves it active.
\<close>

theorem add_github_api_keeps_active_counterexample:
  "filter (named 1 ''work'') example_vault \<noteq> [] \<and>
   map is_active (filter (named 1 ''work'')
     (snd (add_github_api toy_cipher 7 example_vault 1 ''work'' ''ghp_2'' ''hubot''))) = [True]"
  by (simp add: example_vault_eq add_github_api_eq toy_cipher_def named_def sql_text_ok_def)

subsection \<open>Reading the active credential\<close>




section \<open>Properties of the remote client\<close>

lemma send_requests: "requests (snd (send srv gh req s)) = requests s @ [req]"
  by (simp add: send_def split: prod.splits)

lemma send_fst: "fst (send srv gh req s) = fst (srv (client_token gh) (world s) req)"
  by (simp add: send_def split: prod.splits)

lemma get_repository_snd: "snd (get_repository srv gh owner repo_name s) = snd (send srv gh (GetRepo owner repo_name) s)"
  by (simp add: get_repository_def split: prod.splits reply.splits body.splits)

lemma get_repository_requests:
  "requests (snd (get_repository srv gh owner repo_name s)) = requests s @ [GetRepo owner repo_name]"
  by (simp add: get_repository_snd send_requests)

lemma get_repository_fst:
  "fst (get_repository srv gh owner repo_name s) =
     (case fst (srv (client_token gh) (world s) (GetRepo owner repo_name)) of
        Reply status (RepoBody j) \<Rightarrow> if status = 200 then Some (repo_info_of j) else None
      | _ \<Rightarrow> None)"
  by (simp add: get_repository_def send_def split: prod.splits reply.splits body.splits)

lemma toggle_visibility_snd:
  "snd (toggle_repository_visibility srv gh owner repo_name mp s) = snd (send srv gh (PatchRepo owner repo_name mp) s)"
  by (simp add: toggle_repository_visibility_def Let_def split: prod.splits reply.splits body.splits option.splits)

lemma toggle_visibility_requests:
  "requests (snd (toggle_repository_visibility srv gh owner repo_name mp s))
     = requests s @ [PatchRepo owner repo_name mp]"
  by (simp add: toggle_visibility_snd send_requests)

lemma toggle_visibility_fst:
  "fst (toggle_repository_visibility srv gh owner repo_name mp s) =
     (case fst (srv (client_token gh) (world s) (PatchRepo owner repo_name mp)) of
        Raised e \<Rightarrow> (False, e)
      | Reply status b \<Rightarrow>
          if status = 200
          then (True, ''Repository '' @ repo_name @ '' is now '' @ (if mp then ''private'' else ''public''))
          else (False, case b of MessageBody (Some m) \<Rightarrow> m | _ \<Rightarrow> ''HTTP '' @ str_nat status))"
  by (simp add: toggle_repository_visibility_def send_def Let_def
           split: prod.splits reply.splits body.splits option.splits)


text \<open>
  C5, as the code has it. \<open>get_repository\<close> returns the repository exactly when the
  remote service answers with status 200 and a repository object. It returns None
  for every other status, 404 or not, and when the transport raises: the absent
  repository and the failed call come back as the same value.
\<close>

theorem get_repository_absent:
  "(fst (get_repository srv gh owner repo_name s) \<noteq> None) =
     (\<exists>j. fst (srv (client_token gh) (world s) (GetRepo owner repo_name)) = Reply 200 (RepoBody j)) \<and>
   (\<forall>j. fst (srv (client_token gh) (world s) (GetRepo owner repo_name)) = Reply 200 (RepoBody j) \<longrightarrow>
        fst (get_repository srv gh owner repo_name s) = Some (repo_info_of j)) \<and>
   (\<forall>status b. status \<noteq> 200 \<longrightarrow>
        fst (srv (client_token gh) (world s) (GetRepo owner repo_name)) = Reply status b \<longrightarrow>
        fst (get_repository srv gh owner repo_name s) = None) \<and>
   (\<forall>e. fst (srv (client_token gh) (world s) (GetRepo owner repo_name)) = Raised e \<longrightarrow>
        fst (get_repository srv gh owner repo_name s) = None)"
  by (auto simp: get_repository_fst split: reply.splits body.splits)

text \<open>
  The theorem on a service that has the repository and on one that answers 500.
\<close>

theorem get_repository_absent_witness:
  "fst (ok_server (client_token example_client) (world new_session) (GetRepo ''a'' ''x''))
     = Reply 200 (RepoBody (public_repo ''a'' ''x'')) \<and>
   fst (get_repository ok_server example_client ''a'' ''x'' new_session)
     = Some (repo_info_of (public_repo ''a'' ''x'')) \<and>
   (500::nat) \<noteq> 200 \<and>
   fst (failing_server (client_token example_client) (world new_session) (GetRepo ''a'' ''x''))
     = Reply 500 (MessageBody (Some ''Server Error'')) \<and>
   fst (get_repository failing_server example_client ''a'' ''x'' new_session) = None"
proof -
  have r1: "fst (ok_server (client_token example_client) (world new_session) (GetRepo ''a'' ''x''))
     = Reply 200 (RepoBody (public_repo ''a'' ''x''))" by simp
  have r2: "fst (failing_server (client_token example_client) (world new_session) (GetRepo ''a'' ''x''))
     = Reply 500 (MessageBody (Some ''Server Error''))" by (simp add: failing_server_def)
  have n: "(500::nat) \<noteq> 200" by simp
  from get_repository_absent[of ok_server example_client "''a''" "''x''" new_session] r1
  have a: "fst (get_repository ok_server example_client ''a'' ''x'' new_session)
     = Some (repo_info_of (public_repo ''a'' ''x''))" by blast
  from get_repository_absent[of failing_server example_client "''a''" "''x''" new_session] r2 n
  have b: "fst (get_repository failing_server example_client ''a'' ''x'' new_session) = None"
    by blast
  from r1 r2 n a b show ?thesis by blast
qed

text \<open>
  C5 as the spec states it has absence only on a 404 answer, and other failures
  told apart from it. The service answers 500 with a message; \<open>get_repository\<close>
  returns None.
\<close>

theorem get_repository_error_counterexample:
  "fst (failing_server (client_token example_client) (world new_session) (GetRepo ''a'' ''x''))
     = Reply 500 (MessageBody (Some ''Server Error'')) \<and>
   fst (get_repository failing_server example_client ''a'' ''x'' new_session) = None"
  by (simp add: get_repository_fst failing_server_def)

section \<open>Properties of the orchestrator\<close>

subsection \<open>One element of the list\<close>

lemma set_one_eq:
  "set_one srv gh action (owner, repo_name) (results, s) =
     (AList.update (repo_key (owner, repo_name))
        (fst (fst (toggle_repository_visibility srv gh owner repo_name (action = ''private'') s)),
         snd (fst (toggle_repository_visibility srv gh owner repo_name (action = ''private'') s)),
         action) results,
      snd (toggle_repository_visibility srv gh owner repo_name (action = ''private'') s))"
  by (simp add: set_one_def Let_def split: prod.splits)

lemma set_one_keys:
  "fst ` set (fst (set_one srv gh action p st)) = insert (repo_key p) (fst ` set (fst st))"
  by (cases p; cases st) (simp add: set_one_eq dom_update)

lemma set_one_distinct:
  "distinct (map fst (fst st)) \<Longrightarrow> distinct (map fst (fst (set_one srv gh action p st)))"
  by (cases p; cases st) (simp add: set_one_eq distinct_update)

lemma set_one_requests:
  "requests (snd (set_one srv gh action p st))
     = requests (snd st) @ [PatchRepo (fst p) (snd p) (action = ''private'')]"
  by (cases p; cases st) (simp add: set_one_eq toggle_visibility_requests)

lemma set_one_frame:
  "k \<noteq> repo_key p \<Longrightarrow> map_of (fst (set_one srv gh action p st)) k = map_of (fst st) k"
  by (cases p; cases st) (simp add: set_one_eq update_conv')

lemma toggle_one_eq:
  "toggle_one srv gh (owner, repo_name) (results, s) =
     (case fst (get_repository srv gh owner repo_name s) of
        Some repo_info \<Rightarrow>
          (AList.update (repo_key (owner, repo_name))
             (fst (fst (toggle_repository_visibility srv gh owner repo_name (\<not> info_private repo_info)
                          (snd (get_repository srv gh owner repo_name s)))),
              snd (fst (toggle_repository_visibility srv gh owner repo_name (\<not> info_private repo_info)
                          (snd (get_repository srv gh owner repo_name s)))),
              if info_private repo_info then ''public'' else ''private'') results,
           snd (toggle_repository_visibility srv gh owner repo_name (\<not> info_private repo_info)
                  (snd (get_repository srv gh owner repo_name s))))
      | None \<Rightarrow>
          (AList.update (repo_key (owner, repo_name))
             (False, ''Repository not found'', ''unknown'') results,
           snd (get_repository srv gh owner repo_name s)))"
  by (simp add: toggle_one_def Let_def split: prod.splits option.splits)

lemma toggle_one_keys:
  "fst ` set (fst (toggle_one srv gh p st)) = insert (repo_key p) (fst ` set (fst st))"
  by (cases p; cases st) (simp add: toggle_one_eq dom_update split: option.splits)

lemma toggle_one_distinct:
  "distinct (map fst (fst st)) \<Longrightarrow> distinct (map fst (fst (toggle_one srv gh p st)))"
  by (cases p; cases st) (simp add: toggle_one_eq distinct_update split: option.splits)

lemma toggle_one_frame:
  "k \<noteq> repo_key p \<Longrightarrow> map_of (fst (toggle_one srv gh p st)) k = map_of (fst st) k"
  by (cases p; cases st) (simp add: toggle_one_eq update_conv' split: option.splits)

lemma toggle_one_requests:
  "\<exists>new. requests (snd (toggle_one srv gh p st)) = requests (snd st) @ new \<and>
         filter is_get new = [GetRepo (fst p) (snd p)] \<and> length new \<le> 2"
  by (cases p; cases st)
     (simp add: toggle_one_eq toggle_visibility_requests get_repository_requests split: option.splits)


subsection \<open>The loops\<close>

lemma fold_set_one_keys:
  "fst ` set (fst (fold (set_one srv gh action) ps st)) = repo_key ` set ps \<union> fst ` set (fst st)"
  by (induction ps arbitrary: st) (simp_all add: set_one_keys)

lemma fold_set_one_distinct:
  "distinct (map fst (fst st)) \<Longrightarrow> distinct (map fst (fst (fold (set_one srv gh action) ps st)))"
  by (induction ps arbitrary: st) (simp_all add: set_one_distinct)

lemma fold_set_one_requests:
  "requests (snd (fold (set_one srv gh action) ps st))
     = requests (snd st) @ map (\<lambda>p. PatchRepo (fst p) (snd p) (action = ''private'')) ps"
  by (induction ps arbitrary: st) (simp_all add: set_one_requests)

lemma fold_toggle_one_keys:
  "fst ` set (fst (fold (toggle_one srv gh) ps st)) = repo_key ` set ps \<union> fst ` set (fst st)"
  by (induction ps arbitrary: st) (simp_all add: toggle_one_keys)

lemma fold_toggle_one_distinct:
  "distinct (map fst (fst st)) \<Longrightarrow> distinct (map fst (fst (fold (toggle_one srv gh) ps st)))"
  by (induction ps arbitrary: st) (simp_all add: toggle_one_distinct)

lemma fold_toggle_one_requests:
  "\<exists>new. requests (snd (fold (toggle_one srv gh) ps st)) = requests (snd st) @ new \<and>
         filter is_get new = map (\<lambda>p. GetRepo (fst p) (snd p)) ps \<and> length new \<le> 2 * length ps"
proof (induction ps arbitrary: st)
  case Nil
  then show ?case by simp
next
  case (Cons p ps)
  from toggle_one_requests[of srv gh p st] obtain n1 where
    n1: "requests (snd (toggle_one srv gh p st)) = requests (snd st) @ n1"
        "filter is_get n1 = [GetRepo (fst p) (snd p)]" "length n1 \<le> 2" by blast
  from Cons.IH[of "toggle_one srv gh p st"] obtain n2 where
    n2: "requests (snd (fold (toggle_one srv gh) ps (toggle_one srv gh p st)))
           = requests (snd (toggle_one srv gh p st)) @ n2"
        "filter is_get n2 = map (\<lambda>p. GetRepo (fst p) (snd p)) ps" "length n2 \<le> 2 * length ps"
    by blast
  show ?case
    by (rule exI[of _ "n1 @ n2"]) (use n1 n2 in simp)
qed

lemma batch_loop_keys:
  "fst ` set (fst (batch_loop srv gh action ps s)) = repo_key ` set ps"
  by (simp add: batch_loop_def fold_set_one_keys fold_toggle_one_keys)

lemma batch_loop_distinct:
  "distinct (map fst (fst (batch_loop srv gh action ps s)))"
  by (simp add: batch_loop_def fold_set_one_distinct fold_toggle_one_distinct)

lemma batch_loop_snoc:
  "batch_loop srv gh action (ps @ [p]) s =
     (if action = ''toggle'' then toggle_one srv gh p (batch_loop srv gh action ps s)
      else set_one srv gh action p (batch_loop srv gh action ps s))"
  by (simp add: batch_loop_def)

lemma batch_loop_requests_fixed:
  "action \<noteq> ''toggle'' \<Longrightarrow>
   requests (snd (batch_loop srv gh action ps s))
     = requests s @ map (\<lambda>p. PatchRepo (fst p) (snd p) (action = ''private'')) ps"
  by (simp add: batch_loop_def fold_set_one_requests)

lemma batch_loop_requests_toggle:
  "\<exists>new. requests (snd (batch_loop srv gh ''toggle'' ps s)) = requests s @ new \<and>
         filter is_get new = map (\<lambda>p. GetRepo (fst p) (snd p)) ps \<and> length new \<le> 2 * length ps"
  using fold_toggle_one_requests[of srv gh ps "([], s)"] by (simp add: batch_loop_def)

lemma batch_loop_length:
  "length (fst (batch_loop srv gh action ps s)) = card (repo_key ` set ps)"
proof -
  have "length (fst (batch_loop srv gh action ps s))
          = length (map fst (fst (batch_loop srv gh action ps s)))" by simp
  also have "\<dots> = card (set (map fst (fst (batch_loop srv gh action ps s))))"
    by (rule distinct_card[symmetric]) (rule batch_loop_distinct)
  also have "\<dots> = card (repo_key ` set ps)"
    by (simp add: batch_loop_keys)
  finally show ?thesis .
qed

lemma batch_loop_frame:
  "k \<noteq> repo_key p \<Longrightarrow>
   map_of (fst (batch_loop srv gh action (ps @ [p]) s)) k = map_of (fst (batch_loop srv gh action ps s)) k"
  by (simp add: batch_loop_snoc set_one_frame toggle_one_frame)

lemma batch_three_fixed:
  assumes "action \<noteq> ''toggle''"
  shows "fst (batch_loop srv gh action [p1, p2, p3] s) =
     AList.update (repo_key p3)
       (fst (fst (toggle_repository_visibility srv gh (fst p3) (snd p3) (action = ''private'')
          (snd (batch_loop srv gh action [p1, p2] s)))),
        snd (fst (toggle_repository_visibility srv gh (fst p3) (snd p3) (action = ''private'')
          (snd (batch_loop srv gh action [p1, p2] s)))), action)
     (AList.update (repo_key p2)
       (fst (fst (toggle_repository_visibility srv gh (fst p2) (snd p2) (action = ''private'')
          (snd (batch_loop srv gh action [p1] s)))),
        snd (fst (toggle_repository_visibility srv gh (fst p2) (snd p2) (action = ''private'')
          (snd (batch_loop srv gh action [p1] s)))), action)
     (AList.update (repo_key p1)
       (fst (fst (toggle_repository_visibility srv gh (fst p1) (snd p1) (action = ''private'') s)),
        snd (fst (toggle_repository_visibility srv gh (fst p1) (snd p1) (action = ''private'') s)),
        action) []))"
  using assms
  by (cases p1; cases p2; cases p3) (simp add: batch_loop_def set_one_eq)

lemma parse_example:
  "parse_repository_list ''a/x,a/x,b/y'' ''octo'' = [(''a'', ''x''), (''a'', ''x''), (''b'', ''y'')]"
  by code_simp


lemma send_world: "world (snd (send srv gh req s)) = snd (srv (client_token gh) (world s) req)"
  by (simp add: send_def split: prod.splits)

lemma fold_set_one_frame:
  "k \<notin> repo_key ` set qs \<Longrightarrow>
   map_of (fst (fold (set_one srv gh action) qs st)) k = map_of (fst st) k"
  by (induction qs arbitrary: st) (simp_all add: set_one_frame)

lemma fold_toggle_one_frame:
  "k \<notin> repo_key ` set qs \<Longrightarrow>
   map_of (fst (fold (toggle_one srv gh) qs st)) k = map_of (fst st) k"
  by (induction qs arbitrary: st) (simp_all add: toggle_one_frame)

lemma batch_loop_append:
  "batch_loop srv gh action (ps @ qs) s =
     (if action = ''toggle'' then fold (toggle_one srv gh) qs (batch_loop srv gh action ps s)
      else fold (set_one srv gh action) qs (batch_loop srv gh action ps s))"
  by (simp add: batch_loop_def)

lemma set_one_entry:
  "map_of (fst (set_one srv gh action p st)) (repo_key p) =
     Some (fst (fst (toggle_repository_visibility srv gh (fst p) (snd p) (action = ''private'') (snd st))),
           snd (fst (toggle_repository_visibility srv gh (fst p) (snd p) (action = ''private'') (snd st))),
           action)"
  by (cases p; cases st) (simp add: set_one_eq update_conv')

lemma toggle_one_entry:
  "map_of (fst (toggle_one srv gh p st)) (repo_key p) =
     (case fst (get_repository srv gh (fst p) (snd p) (snd st)) of
        None \<Rightarrow> Some (False, ''Repository not found'', ''unknown'')
      | Some info \<Rightarrow>
          Some (fst (fst (toggle_repository_visibility srv gh (fst p) (snd p) (\<not> info_private info)
                            (snd (get_repository srv gh (fst p) (snd p) (snd st))))),
                snd (fst (toggle_repository_visibility srv gh (fst p) (snd p) (\<not> info_private info)
                            (snd (get_repository srv gh (fst p) (snd p) (snd st))))),
                if info_private info then ''public'' else ''private''))"
  by (cases p; cases st) (simp add: toggle_one_eq update_conv' split: option.splits)

lemma batch_loop_last_fixed:
  assumes "action \<noteq> ''toggle''" "repo_key p \<notin> repo_key ` set qs"
  shows "map_of (fst (batch_loop srv gh action (ps @ p # qs) s)) (repo_key p) =
     Some (fst (fst (toggle_repository_visibility srv gh (fst p) (snd p) (action = ''private'')
                      (snd (batch_loop srv gh action ps s)))),
           snd (fst (toggle_repository_visibility srv gh (fst p) (snd p) (action = ''private'')
                      (snd (batch_loop srv gh action ps s)))),
           action)"
  using assms
  by (simp add: batch_loop_append fold_set_one_frame set_one_entry)

lemma batch_loop_last_toggle:
  assumes "repo_key p \<notin> repo_key ` set qs"
  shows "map_of (fst (batch_loop srv gh ''toggle'' (ps @ p # qs) s)) (repo_key p) =
     map_of (fst (toggle_one srv gh p ([], snd (batch_loop srv gh ''toggle'' ps s)))) (repo_key p)"
  using assms
  by (simp add: batch_loop_append fold_toggle_one_frame toggle_one_entry split: option.splits)

lemma toggle_one_segment:
  "\<exists>seg. requests (snd (toggle_one srv gh p st)) = requests (snd st) @ seg \<and>
         (seg = [GetRepo (fst p) (snd p)] \<or>
          (\<exists>mp. seg = [GetRepo (fst p) (snd p), PatchRepo (fst p) (snd p) mp]))"
  by (cases p; cases st)
     (simp add: toggle_one_eq toggle_visibility_requests get_repository_requests split: option.splits)

lemma fold_toggle_one_segments:
  "\<exists>segs. requests (snd (fold (toggle_one srv gh) ps st)) = requests (snd st) @ concat segs \<and>
     list_all2 (\<lambda>p seg. seg = [GetRepo (fst p) (snd p)] \<or>
                  (\<exists>mp. seg = [GetRepo (fst p) (snd p), PatchRepo (fst p) (snd p) mp])) ps segs"
proof (induction ps arbitrary: st)
  case Nil
  show ?case by (rule exI[of _ "[]"]) simp
next
  case (Cons p ps)
  from toggle_one_segment[of srv gh p st] obtain seg where
    s1: "requests (snd (toggle_one srv gh p st)) = requests (snd st) @ seg"
        "seg = [GetRepo (fst p) (snd p)] \<or>
          (\<exists>mp. seg = [GetRepo (fst p) (snd p), PatchRepo (fst p) (snd p) mp])" by blast
  from Cons.IH[of "toggle_one srv gh p st"] obtain segs where
    s2: "requests (snd (fold (toggle_one srv gh) ps (toggle_one srv gh p st)))
           = requests (snd (toggle_one srv gh p st)) @ concat segs"
        "list_all2 (\<lambda>p seg. seg = [GetRepo (fst p) (snd p)] \<or>
                  (\<exists>mp. seg = [GetRepo (fst p) (snd p), PatchRepo (fst p) (snd p) mp])) ps segs"
    by blast
  show ?case
    by (rule exI[of _ "seg # segs"]) (use s1 s2 in simp)
qed

lemma batch_loop_segments:
  "\<exists>segs. requests (snd (batch_loop srv gh ''toggle'' ps s)) = requests s @ concat segs \<and>
     list_all2 (\<lambda>p seg. seg = [GetRepo (fst p) (snd p)] \<or>
                  (\<exists>mp. seg = [GetRepo (fst p) (snd p), PatchRepo (fst p) (snd p) mp])) ps segs"
  using fold_toggle_one_segments[of srv gh ps "([], s)"] by (simp add: batch_loop_def)

lemma get_repository_world:
  "world (snd (get_repository srv gh owner repo_name s))
     = snd (srv (client_token gh) (world s) (GetRepo owner repo_name))"
  by (simp add: get_repository_snd send_world)

lemma entry_fixed:
  assumes "action \<noteq> ''toggle''" "repo_key p \<notin> repo_key ` set qs"
  shows "(let sp = snd (batch_loop srv gh action ps s);
              entry = map_of (fst (batch_loop srv gh action (ps @ p # qs) s)) (repo_key p);
              rep = fst (srv (client_token gh) (world sp)
                           (PatchRepo (fst p) (snd p) (action = ''private'')))
          in (\<forall>e. rep = Raised e \<longrightarrow> entry = Some (False, e, action)) \<and>
             (\<forall>status b. rep = Reply status b \<longrightarrow> status \<noteq> 200 \<longrightarrow>
                (\<exists>msg. entry = Some (False, msg, action))) \<and>
             (\<forall>b. rep = Reply 200 b \<longrightarrow>
                entry = Some (True, ''Repository '' @ snd p @ '' is now ''
                                @ (if action = ''private'' then ''private'' else ''public''),
                              action)))"
  unfolding Let_def batch_loop_last_fixed[OF assms]
  by (auto simp: toggle_visibility_fst)

lemma entry_toggle:
  assumes "repo_key p \<notin> repo_key ` set qs"
  shows "(let sp = snd (batch_loop srv gh ''toggle'' ps s);
              entry = map_of (fst (batch_loop srv gh ''toggle'' (ps @ p # qs) s)) (repo_key p);
              g = srv (client_token gh) (world sp) (GetRepo (fst p) (snd p))
          in ((\<forall>j. fst g \<noteq> Reply 200 (RepoBody j)) \<longrightarrow>
                entry = Some (False, ''Repository not found'', ''unknown'')) \<and>
             (\<forall>j. fst g = Reply 200 (RepoBody j) \<longrightarrow>
                (let rep = fst (srv (client_token gh) (snd g)
                                  (PatchRepo (fst p) (snd p) (\<not> json_private j)));
                     vis = (if json_private j then ''public'' else ''private'')
                 in (\<forall>e. rep = Raised e \<longrightarrow> entry = Some (False, e, vis)) \<and>
                    (\<forall>status b. rep = Reply status b \<longrightarrow> status \<noteq> 200 \<longrightarrow>
                       (\<exists>msg. entry = Some (False, msg, vis))) \<and>
                    (\<forall>b. rep = Reply 200 b \<longrightarrow>
                       entry = Some (True, ''Repository '' @ snd p @ '' is now '' @ vis, vis)))))"
proof -
  let ?sp = "snd (batch_loop srv gh ''toggle'' ps s)"
  let ?g = "srv (client_token gh) (world ?sp) (GetRepo (fst p) (snd p))"
  have e: "map_of (fst (batch_loop srv gh ''toggle'' (ps @ p # qs) s)) (repo_key p)
        = map_of (fst (toggle_one srv gh p ([], ?sp))) (repo_key p)"
    by (rule batch_loop_last_toggle[OF assms])
  have none: "(\<forall>j. fst ?g \<noteq> Reply 200 (RepoBody j)) \<Longrightarrow>
      map_of (fst (toggle_one srv gh p ([], ?sp))) (repo_key p)
        = Some (False, ''Repository not found'', ''unknown'')"
    by (auto simp: toggle_one_entry get_repository_fst split: reply.splits body.splits)
  have some: "\<And>j. fst ?g = Reply 200 (RepoBody j) \<Longrightarrow>
      map_of (fst (toggle_one srv gh p ([], ?sp))) (repo_key p)
        = Some (fst (fst (toggle_repository_visibility srv gh (fst p) (snd p) (\<not> json_private j)
                            (snd (get_repository srv gh (fst p) (snd p) ?sp)))),
                snd (fst (toggle_repository_visibility srv gh (fst p) (snd p) (\<not> json_private j)
                            (snd (get_repository srv gh (fst p) (snd p) ?sp)))),
                if json_private j then ''public'' else ''private'')"
    by (simp add: toggle_one_entry get_repository_fst repo_info_of_def)
  show ?thesis
    unfolding Let_def e
    apply (intro conjI impI allI)
    subgoal by (rule none) simp
    subgoal for j e using some[of j] by (simp add: toggle_visibility_fst get_repository_world)
    subgoal for j status b using some[of j] by (simp add: toggle_visibility_fst get_repository_world)
    subgoal for j b using some[of j] by (simp add: toggle_visibility_fst get_repository_world)
    done
qed

lemma once_first:
  "snd (batch_loop once_server example_client ''private'' [(''a'', ''x'')] counting_session)
     = \<lparr>world = Suc 0, requests = [PatchRepo ''a'' ''x'' True]\<rparr>"
  by code_simp

lemma once_second:
  "map_of (fst (set_one once_server example_client ''private'' (''a'', ''x'')
                  ([], \<lparr>world = Suc 0, requests = [PatchRepo ''a'' ''x'' True]\<rparr>))) ''a/x''
     = Some (False, ''Visibility is already private.'', ''private'')"
  by code_simp


subsection \<open>Duplicates in the list\<close>

text \<open>
  C3, as the code has it. The results hold one entry for each key \<open>owner/repo\<close> of the
  list, however often the pair occurs. The requests are sent for every element of the
  list, duplicates included: with a fixed visibility one PATCH for each element, in
  the order of the list; in toggle mode the requests are, element by element in that
  order, the GET of the element followed by nothing or by one PATCH of the same
  element. The entry of a key is the one that the last occurrence of its pair
  records, from the reply to the requests sent for that occurrence: what an earlier
  occurrence recorded is overwritten.
\<close>

theorem batch_loop_calls:
  "length (fst (batch_loop srv gh action repo_list s)) = card (repo_key ` set repo_list) \<and>
   fst ` set (fst (batch_loop srv gh action repo_list s)) = repo_key ` set repo_list \<and>
   (action \<noteq> ''toggle'' \<longrightarrow>
      requests (snd (batch_loop srv gh action repo_list s))
        = requests s @ map (\<lambda>p. PatchRepo (fst p) (snd p) (action = ''private'')) repo_list) \<and>
   (action = ''toggle'' \<longrightarrow>
      (\<exists>new. requests (snd (batch_loop srv gh action repo_list s)) = requests s @ new \<and>
             filter is_get new = map (\<lambda>p. GetRepo (fst p) (snd p)) repo_list \<and>
             length new \<le> 2 * length repo_list)) \<and>
   (action = ''toggle'' \<longrightarrow>
      (\<exists>segs. requests (snd (batch_loop srv gh action repo_list s)) = requests s @ concat segs \<and>
         list_all2 (\<lambda>p seg. seg = [GetRepo (fst p) (snd p)] \<or>
                      (\<exists>mp. seg = [GetRepo (fst p) (snd p), PatchRepo (fst p) (snd p) mp]))
           repo_list segs)) \<and>
   (\<forall>ps p qs. repo_list = ps @ p # qs \<longrightarrow> repo_key p \<notin> repo_key ` set qs \<longrightarrow>
      map_of (fst (batch_loop srv gh action repo_list s)) (repo_key p)
        = map_of (fst (if action = ''toggle''
                       then toggle_one srv gh p ([], snd (batch_loop srv gh action ps s))
                       else set_one srv gh action p ([], snd (batch_loop srv gh action ps s))))
            (repo_key p))"
proof -
  have last: "\<And>ps p qs. repo_list = ps @ p # qs \<Longrightarrow> repo_key p \<notin> repo_key ` set qs \<Longrightarrow>
      map_of (fst (batch_loop srv gh action repo_list s)) (repo_key p)
        = map_of (fst (if action = ''toggle''
                       then toggle_one srv gh p ([], snd (batch_loop srv gh action ps s))
                       else set_one srv gh action p ([], snd (batch_loop srv gh action ps s))))
            (repo_key p)"
  proof -
    fix ps p qs
    assume l: "repo_list = ps @ p # qs" and k: "repo_key p \<notin> repo_key ` set qs"
    show "map_of (fst (batch_loop srv gh action repo_list s)) (repo_key p)
        = map_of (fst (if action = ''toggle''
                       then toggle_one srv gh p ([], snd (batch_loop srv gh action ps s))
                       else set_one srv gh action p ([], snd (batch_loop srv gh action ps s))))
            (repo_key p)"
    proof (cases "action = ''toggle''")
      case True
      then show ?thesis using batch_loop_last_toggle[OF k, of srv gh ps s] l by simp
    next
      case False
      then show ?thesis using batch_loop_last_fixed[OF False k, of srv gh ps s] l
        by (simp add: set_one_entry)
    qed
  qed
  show ?thesis
    using batch_loop_requests_toggle[of srv gh repo_list s] batch_loop_segments[of srv gh repo_list s]
      last
    by (simp add: batch_loop_length batch_loop_keys batch_loop_requests_fixed)
qed

text \<open>
  The theorem on the list \<open>a/x,a/x,b/y\<close>: two entries, three PATCH requests with a
  fixed visibility, three GET requests in three segments in toggle mode; and, against
  the service that accepts the first change only, the entry of \<open>a/x\<close> is the refusal
  that its second occurrence got.
\<close>

theorem batch_loop_calls_witness:
  "''private'' \<noteq> ''toggle'' \<and>
   parse_repository_list ''a/x,a/x,b/y'' ''octo'' = [(''a'', ''x'')] @ (''a'', ''x'') # [(''b'', ''y'')] \<and>
   repo_key (''a'', ''x'') \<notin> repo_key ` set [(''b'', ''y'')] \<and>
   length (fst (batch_loop ok_server example_client ''private''
                  (parse_repository_list ''a/x,a/x,b/y'' ''octo'') new_session)) = 2 \<and>
   requests (snd (batch_loop ok_server example_client ''private''
                  (parse_repository_list ''a/x,a/x,b/y'' ''octo'') new_session))
     = [PatchRepo ''a'' ''x'' True, PatchRepo ''a'' ''x'' True, PatchRepo ''b'' ''y'' True] \<and>
   (\<exists>new. requests (snd (batch_loop ok_server example_client ''toggle''
                  (parse_repository_list ''a/x,a/x,b/y'' ''octo'') new_session)) = new \<and>
      filter is_get new = [GetRepo ''a'' ''x'', GetRepo ''a'' ''x'', GetRepo ''b'' ''y'']) \<and>
   (\<exists>segs. requests (snd (batch_loop ok_server example_client ''toggle''
                  (parse_repository_list ''a/x,a/x,b/y'' ''octo'') new_session)) = concat segs \<and>
      length segs = 3) \<and>
   map_of (fst (batch_loop once_server example_client ''private''
                  (parse_repository_list ''a/x,a/x,b/y'' ''octo'') counting_session)) ''a/x''
     = Some (False, ''Visibility is already private.'', ''private'')"
proof -
  have c: "card (repo_key ` set [(''a'', ''x''), (''a'', ''x''), (''b'', ''y'')]) = 2"
    by (simp add: repo_key_def)
  have n: "''private'' \<noteq> ''toggle''" by simp
  have l: "parse_repository_list ''a/x,a/x,b/y'' ''octo''
             = [(''a'', ''x'')] @ (''a'', ''x'') # [(''b'', ''y'')]"
    by (simp add: parse_example)
  have k: "repo_key (''a'', ''x'') \<notin> repo_key ` set [(''b'', ''y'')]"
    by (simp add: repo_key_def)
  have kx: "repo_key (''a'', ''x'') = ''a/x''" by (simp add: repo_key_def)
  from batch_loop_calls[of ok_server example_client "''private''"
         "parse_repository_list ''a/x,a/x,b/y'' ''octo''" new_session] c n
  have a: "length (fst (batch_loop ok_server example_client ''private''
                  (parse_repository_list ''a/x,a/x,b/y'' ''octo'') new_session)) = 2 \<and>
   requests (snd (batch_loop ok_server example_client ''private''
                  (parse_repository_list ''a/x,a/x,b/y'' ''octo'') new_session))
     = [PatchRepo ''a'' ''x'' True, PatchRepo ''a'' ''x'' True, PatchRepo ''b'' ''y'' True]"
    by (simp add: parse_example new_session_def)
  from batch_loop_calls[of ok_server example_client "''toggle''"
         "parse_repository_list ''a/x,a/x,b/y'' ''octo''" new_session]
  have b: "\<exists>new. requests (snd (batch_loop ok_server example_client ''toggle''
                  (parse_repository_list ''a/x,a/x,b/y'' ''octo'') new_session)) = new \<and>
      filter is_get new = [GetRepo ''a'' ''x'', GetRepo ''a'' ''x'', GetRepo ''b'' ''y'']"
    by (auto simp: parse_example new_session_def)
  from batch_loop_calls[of ok_server example_client "''toggle''"
         "parse_repository_list ''a/x,a/x,b/y'' ''octo''" new_session]
  obtain segs where sg: "requests (snd (batch_loop ok_server example_client ''toggle''
                  (parse_repository_list ''a/x,a/x,b/y'' ''octo'') new_session))
                    = requests new_session @ concat segs"
      "list_all2 (\<lambda>p seg. seg = [GetRepo (fst p) (snd p)] \<or>
                      (\<exists>mp. seg = [GetRepo (fst p) (snd p), PatchRepo (fst p) (snd p) mp]))
           (parse_repository_list ''a/x,a/x,b/y'' ''octo'') segs"
    by auto
  from sg(2) have "length segs = 3"
    by (simp add: parse_example list_all2_lengthD[symmetric])
  with sg(1) have d: "\<exists>segs. requests (snd (batch_loop ok_server example_client ''toggle''
                  (parse_repository_list ''a/x,a/x,b/y'' ''octo'') new_session)) = concat segs \<and>
      length segs = 3"
    by (auto simp: new_session_def)
  note t6 = batch_loop_calls[of once_server example_client "''private''"
         "parse_repository_list ''a/x,a/x,b/y'' ''octo''" counting_session,
         THEN conjunct2, THEN conjunct2, THEN conjunct2, THEN conjunct2, THEN conjunct2]
  from t6[rule_format, OF l k]
  have "map_of (fst (batch_loop once_server example_client ''private''
                  (parse_repository_list ''a/x,a/x,b/y'' ''octo'') counting_session))
           (repo_key (''a'', ''x''))
     = map_of (fst (set_one once_server example_client ''private'' (''a'', ''x'')
                 ([], snd (batch_loop once_server example_client ''private'' [(''a'', ''x'')]
                             counting_session)))) (repo_key (''a'', ''x''))"
    by simp
  then have e: "map_of (fst (batch_loop once_server example_client ''private''
                  (parse_repository_list ''a/x,a/x,b/y'' ''octo'') counting_session)) ''a/x''
     = Some (False, ''Visibility is already private.'', ''private'')"
    by (simp add: kx once_first once_second)
  from n l k a b d e show ?thesis by blast
qed

text \<open>
  C3 as the spec states it has one remote call for each distinct pair. The batch
  \<open>a/x,a/x,b/y\<close> with the action \<open>private\<close> gives two entries and sends three PATCH
  requests, two of them for \<open>a/x\<close>.
\<close>

theorem batch_duplicate_calls_counterexample:
  "fst (execute_batch_toggle toy_cipher example_vault ok_server 1 ''private'' ''a/x,a/x,b/y'' new_session)
     = BatchResults [(''a/x'', True, ''Repository x is now private'', ''private''),
                     (''b/y'', True, ''Repository y is now private'', ''private'')] \<and>
   requests (snd (execute_batch_toggle toy_cipher example_vault ok_server 1 ''private''
                    ''a/x,a/x,b/y'' new_session))
     = [PatchRepo ''a'' ''x'' True, PatchRepo ''a'' ''x'' True, PatchRepo ''b'' ''y'' True]"
  by code_simp

subsection \<open>Toggle mode\<close>

text \<open>
  C6. In toggle mode the orchestrator handles each pair of the list with the body
  \<open>toggle_one\<close>, which first sends the GET of \<open>get_repository\<close>. When that returns None,
  no other request is sent and the entry of the pair is the failure
  \<open>Repository not found\<close> with the visibility \<open>unknown\<close>. Otherwise the PATCH of
  \<open>toggle_repository_visibility\<close> follows with \<open>make_private\<close> the negation of the
  repository's \<open>private\<close> flag, and the entry carries the outcome of that call and the
  visibility asked for: \<open>private\<close> for a repository that was public.
\<close>

theorem toggle_one_auto:
  "(fst (get_repository srv gh owner repo_name s) = None \<longrightarrow>
      requests (snd (toggle_one srv gh (owner, repo_name) (results, s)))
        = requests s @ [GetRepo owner repo_name] \<and>
      map_of (fst (toggle_one srv gh (owner, repo_name) (results, s))) (repo_key (owner, repo_name))
        = Some (False, ''Repository not found'', ''unknown'')) \<and>
   (\<forall>info. fst (get_repository srv gh owner repo_name s) = Some info \<longrightarrow>
      requests (snd (toggle_one srv gh (owner, repo_name) (results, s)))
        = requests s @ [GetRepo owner repo_name, PatchRepo owner repo_name (\<not> info_private info)] \<and>
      map_of (fst (toggle_one srv gh (owner, repo_name) (results, s))) (repo_key (owner, repo_name))
        = Some (fst (fst (toggle_repository_visibility srv gh owner repo_name (\<not> info_private info)
                            (snd (get_repository srv gh owner repo_name s)))),
                snd (fst (toggle_repository_visibility srv gh owner repo_name (\<not> info_private info)
                            (snd (get_repository srv gh owner repo_name s)))),
                if info_private info then ''public'' else ''private'')) \<and>
   batch_loop srv gh ''toggle'' (ps @ [(owner, repo_name)]) s0
     = toggle_one srv gh (owner, repo_name) (batch_loop srv gh ''toggle'' ps s0)"
  by (simp add: toggle_one_eq update_conv' toggle_visibility_requests get_repository_requests
        batch_loop_snoc)

text \<open>
  The theorem on a public repository, which gets the PATCH with \<open>make_private = True\<close>
  and the entry \<open>private\<close>, and on a service where the GET finds nothing.
\<close>

theorem toggle_one_auto_witness:
  "fst (get_repository ok_server example_client ''a'' ''x'' new_session)
     = Some (repo_info_of (public_repo ''a'' ''x'')) \<and>
   \<not> info_private (repo_info_of (public_repo ''a'' ''x'')) \<and>
   requests (snd (toggle_one ok_server example_client (''a'', ''x'') ([], new_session)))
     = [GetRepo ''a'' ''x'', PatchRepo ''a'' ''x'' True] \<and>
   map_of (fst (toggle_one ok_server example_client (''a'', ''x'') ([], new_session))) ''a/x''
     = Some (True, ''Repository x is now private'', ''private'') \<and>
   fst (get_repository failing_server example_client ''a'' ''x'' new_session) = None \<and>
   requests (snd (toggle_one failing_server example_client (''a'', ''x'') ([], new_session)))
     = [GetRepo ''a'' ''x''] \<and>
   map_of (fst (toggle_one failing_server example_client (''a'', ''x'') ([], new_session))) ''a/x''
     = Some (False, ''Repository not found'', ''unknown'')"
proof -
  have g: "fst (get_repository ok_server example_client ''a'' ''x'' new_session)
     = Some (repo_info_of (public_repo ''a'' ''x''))"
    by (simp add: get_repository_fst)
  have p: "\<not> info_private (repo_info_of (public_repo ''a'' ''x''))"
    by (simp add: repo_info_of_def public_repo_def)
  have t: "fst (toggle_repository_visibility ok_server example_client ''a'' ''x'' True
                  (snd (get_repository ok_server example_client ''a'' ''x'' new_session)))
             = (True, ''Repository x is now private'')"
    by (simp add: toggle_visibility_fst)
  have k: "repo_key (''a'', ''x'') = ''a/x''" by (simp add: repo_key_def)
  have r: "requests new_session = []" by (simp add: new_session_def)
  from toggle_one_auto[of ok_server example_client "''a''" "''x''" new_session "[]"] g p t k r
  have a: "requests (snd (toggle_one ok_server example_client (''a'', ''x'') ([], new_session)))
     = [GetRepo ''a'' ''x'', PatchRepo ''a'' ''x'' True] \<and>
   map_of (fst (toggle_one ok_server example_client (''a'', ''x'') ([], new_session))) ''a/x''
     = Some (True, ''Repository x is now private'', ''private'')"
    by simp
  have g': "fst (get_repository failing_server example_client ''a'' ''x'' new_session) = None"
    by (simp add: get_repository_fst failing_server_def)
  from toggle_one_auto[of failing_server example_client "''a''" "''x''" new_session "[]"] g' k r
  have b: "requests (snd (toggle_one failing_server example_client (''a'', ''x'') ([], new_session)))
     = [GetRepo ''a'' ''x''] \<and>
   map_of (fst (toggle_one failing_server example_client (''a'', ''x'') ([], new_session))) ''a/x''
     = Some (False, ''Repository not found'', ''unknown'')"
    by simp
  from g p a g' b show ?thesis by blast
qed

subsection \<open>Partial failure\<close>

text \<open>
  C7. Whatever the remote service answers or raises, the results hold an entry for
  every pair of the list; the element handled next, failed or not, leaves the entries
  of the other keys as they are. For three pairs with different keys and a fixed
  visibility, where the transport raises on the second and the service accepts the
  first and the third, the batch returns three entries: success for the first and the
  third, and a failure with the text of the exception for the second. In general, at
  every place of every list, the entry of the pair handled there for the last time is
  decided by the replies to its own requests, in the session that the elements before
  it left. With a fixed visibility: a failure with the text of the exception when the
  PATCH raises, a failure when its status is not 200, and the success otherwise. In
  toggle mode: \<open>Repository not found\<close> when the GET does not come back with status 200
  and a repository, and otherwise the same three cases for the PATCH that follows.
\<close>

theorem batch_loop_partial_failure:
  "fst ` set (fst (batch_loop srv gh action repo_list s)) = repo_key ` set repo_list \<and>
   (\<forall>k. k \<noteq> repo_key p \<longrightarrow>
      map_of (fst (batch_loop srv gh action (repo_list @ [p]) s)) k
        = map_of (fst (batch_loop srv gh action repo_list s)) k) \<and>
   (action \<noteq> ''toggle'' \<longrightarrow>
    repo_key p1 \<noteq> repo_key p2 \<longrightarrow> repo_key p1 \<noteq> repo_key p3 \<longrightarrow> repo_key p2 \<noteq> repo_key p3 \<longrightarrow>
    (\<forall>w. fst (srv (client_token gh) w (PatchRepo (fst p1) (snd p1) (action = ''private''))) = Reply 200 b1) \<longrightarrow>
    (\<forall>w. fst (srv (client_token gh) w (PatchRepo (fst p2) (snd p2) (action = ''private''))) = Raised e) \<longrightarrow>
    (\<forall>w. fst (srv (client_token gh) w (PatchRepo (fst p3) (snd p3) (action = ''private''))) = Reply 200 b3) \<longrightarrow>
    fst (batch_loop srv gh action [p1, p2, p3] s)
      = [(repo_key p1, True, ''Repository '' @ snd p1 @ '' is now ''
                              @ (if action = ''private'' then ''private'' else ''public''), action),
         (repo_key p2, False, e, action),
         (repo_key p3, True, ''Repository '' @ snd p3 @ '' is now ''
                              @ (if action = ''private'' then ''private'' else ''public''), action)]) \<and>
   (\<forall>ps q qs. repo_list = ps @ q # qs \<longrightarrow> repo_key q \<notin> repo_key ` set qs \<longrightarrow>
      action \<noteq> ''toggle'' \<longrightarrow>
      (let sp = snd (batch_loop srv gh action ps s);
           entry = map_of (fst (batch_loop srv gh action repo_list s)) (repo_key q);
           rep = fst (srv (client_token gh) (world sp)
                        (PatchRepo (fst q) (snd q) (action = ''private'')))
       in (\<forall>e. rep = Raised e \<longrightarrow> entry = Some (False, e, action)) \<and>
          (\<forall>status b. rep = Reply status b \<longrightarrow> status \<noteq> 200 \<longrightarrow>
             (\<exists>msg. entry = Some (False, msg, action))) \<and>
          (\<forall>b. rep = Reply 200 b \<longrightarrow>
             entry = Some (True, ''Repository '' @ snd q @ '' is now ''
                             @ (if action = ''private'' then ''private'' else ''public''),
                           action)))) \<and>
   (\<forall>ps q qs. repo_list = ps @ q # qs \<longrightarrow> repo_key q \<notin> repo_key ` set qs \<longrightarrow>
      action = ''toggle'' \<longrightarrow>
      (let sp = snd (batch_loop srv gh action ps s);
           entry = map_of (fst (batch_loop srv gh action repo_list s)) (repo_key q);
           g = srv (client_token gh) (world sp) (GetRepo (fst q) (snd q))
       in ((\<forall>j. fst g \<noteq> Reply 200 (RepoBody j)) \<longrightarrow>
             entry = Some (False, ''Repository not found'', ''unknown'')) \<and>
          (\<forall>j. fst g = Reply 200 (RepoBody j) \<longrightarrow>
             (let rep = fst (srv (client_token gh) (snd g)
                               (PatchRepo (fst q) (snd q) (\<not> json_private j)));
                  vis = (if json_private j then ''public'' else ''private'')
              in (\<forall>e. rep = Raised e \<longrightarrow> entry = Some (False, e, vis)) \<and>
                 (\<forall>status b. rep = Reply status b \<longrightarrow> status \<noteq> 200 \<longrightarrow>
                    (\<exists>msg. entry = Some (False, msg, vis))) \<and>
                 (\<forall>b. rep = Reply 200 b \<longrightarrow>
                    entry = Some (True, ''Repository '' @ snd q @ '' is now '' @ vis, vis))))))"
proof (intro conjI)
  show "fst ` set (fst (batch_loop srv gh action repo_list s)) = repo_key ` set repo_list"
    by (rule batch_loop_keys)
next
  show "\<forall>k. k \<noteq> repo_key p \<longrightarrow>
      map_of (fst (batch_loop srv gh action (repo_list @ [p]) s)) k
        = map_of (fst (batch_loop srv gh action repo_list s)) k"
    by (simp add: batch_loop_frame)
next
  show "action \<noteq> ''toggle'' \<longrightarrow>
    repo_key p1 \<noteq> repo_key p2 \<longrightarrow> repo_key p1 \<noteq> repo_key p3 \<longrightarrow> repo_key p2 \<noteq> repo_key p3 \<longrightarrow>
    (\<forall>w. fst (srv (client_token gh) w (PatchRepo (fst p1) (snd p1) (action = ''private''))) = Reply 200 b1) \<longrightarrow>
    (\<forall>w. fst (srv (client_token gh) w (PatchRepo (fst p2) (snd p2) (action = ''private''))) = Raised e) \<longrightarrow>
    (\<forall>w. fst (srv (client_token gh) w (PatchRepo (fst p3) (snd p3) (action = ''private''))) = Reply 200 b3) \<longrightarrow>
    fst (batch_loop srv gh action [p1, p2, p3] s)
      = [(repo_key p1, True, ''Repository '' @ snd p1 @ '' is now ''
                              @ (if action = ''private'' then ''private'' else ''public''), action),
         (repo_key p2, False, e, action),
         (repo_key p3, True, ''Repository '' @ snd p3 @ '' is now ''
                              @ (if action = ''private'' then ''private'' else ''public''), action)]"
  proof (intro impI)
    assume a: "action \<noteq> ''toggle''"
      and d: "repo_key p1 \<noteq> repo_key p2" "repo_key p1 \<noteq> repo_key p3" "repo_key p2 \<noteq> repo_key p3"
      and r1: "\<forall>w. fst (srv (client_token gh) w (PatchRepo (fst p1) (snd p1) (action = ''private''))) = Reply 200 b1"
      and r2: "\<forall>w. fst (srv (client_token gh) w (PatchRepo (fst p2) (snd p2) (action = ''private''))) = Raised e"
      and r3: "\<forall>w. fst (srv (client_token gh) w (PatchRepo (fst p3) (snd p3) (action = ''private''))) = Reply 200 b3"
    show "fst (batch_loop srv gh action [p1, p2, p3] s)
      = [(repo_key p1, True, ''Repository '' @ snd p1 @ '' is now ''
                              @ (if action = ''private'' then ''private'' else ''public''), action),
         (repo_key p2, False, e, action),
         (repo_key p3, True, ''Repository '' @ snd p3 @ '' is now ''
                              @ (if action = ''private'' then ''private'' else ''public''), action)]"
      unfolding batch_three_fixed[OF a] toggle_visibility_fst
      using d r1 r2 r3 by simp
  qed
next
  show "\<forall>ps q qs. repo_list = ps @ q # qs \<longrightarrow> repo_key q \<notin> repo_key ` set qs \<longrightarrow>
      action \<noteq> ''toggle'' \<longrightarrow>
      (let sp = snd (batch_loop srv gh action ps s);
           entry = map_of (fst (batch_loop srv gh action repo_list s)) (repo_key q);
           rep = fst (srv (client_token gh) (world sp)
                        (PatchRepo (fst q) (snd q) (action = ''private'')))
       in (\<forall>e. rep = Raised e \<longrightarrow> entry = Some (False, e, action)) \<and>
          (\<forall>status b. rep = Reply status b \<longrightarrow> status \<noteq> 200 \<longrightarrow>
             (\<exists>msg. entry = Some (False, msg, action))) \<and>
          (\<forall>b. rep = Reply 200 b \<longrightarrow>
             entry = Some (True, ''Repository '' @ snd q @ '' is now ''
                             @ (if action = ''private'' then ''private'' else ''public''),
                           action)))"
  proof (intro allI impI)
    fix ps q qs
    assume l: "repo_list = ps @ q # qs" and k: "repo_key q \<notin> repo_key ` set qs"
      and a: "action \<noteq> ''toggle''"
    show "(let sp = snd (batch_loop srv gh action ps s);
           entry = map_of (fst (batch_loop srv gh action repo_list s)) (repo_key q);
           rep = fst (srv (client_token gh) (world sp)
                        (PatchRepo (fst q) (snd q) (action = ''private'')))
       in (\<forall>e. rep = Raised e \<longrightarrow> entry = Some (False, e, action)) \<and>
          (\<forall>status b. rep = Reply status b \<longrightarrow> status \<noteq> 200 \<longrightarrow>
             (\<exists>msg. entry = Some (False, msg, action))) \<and>
          (\<forall>b. rep = Reply 200 b \<longrightarrow>
             entry = Some (True, ''Repository '' @ snd q @ '' is now ''
                             @ (if action = ''private'' then ''private'' else ''public''),
                           action)))"
      unfolding l by (rule entry_fixed[OF a k])
  qed
next
  show "\<forall>ps q qs. repo_list = ps @ q # qs \<longrightarrow> repo_key q \<notin> repo_key ` set qs \<longrightarrow>
      action = ''toggle'' \<longrightarrow>
      (let sp = snd (batch_loop srv gh action ps s);
           entry = map_of (fst (batch_loop srv gh action repo_list s)) (repo_key q);
           g = srv (client_token gh) (world sp) (GetRepo (fst q) (snd q))
       in ((\<forall>j. fst g \<noteq> Reply 200 (RepoBody j)) \<longrightarrow>
             entry = Some (False, ''Repository not found'', ''unknown'')) \<and>
          (\<forall>j. fst g = Reply 200 (RepoBody j) \<longrightarrow>
             (let rep = fst (srv (client_token gh) (snd g)
                               (PatchRepo (fst q) (snd q) (\<not> json_private j)));
                  vis = (if json_private j then ''public'' else ''private'')
              in (\<forall>e. rep = Raised e \<longrightarrow> entry = Some (False, e, vis)) \<and>
                 (\<forall>status b. rep = Reply status b \<longrightarrow> status \<noteq> 200 \<longrightarrow>
                    (\<exists>msg. entry = Some (False, msg, vis))) \<and>
                 (\<forall>b. rep = Reply 200 b \<longrightarrow>
                    entry = Some (True, ''Repository '' @ snd q @ '' is now '' @ vis, vis)))))"
  proof (intro allI impI)
    fix ps q qs
    assume l: "repo_list = ps @ q # qs" and k: "repo_key q \<notin> repo_key ` set qs"
      and a: "action = ''toggle''"
    show "(let sp = snd (batch_loop srv gh action ps s);
           entry = map_of (fst (batch_loop srv gh action repo_list s)) (repo_key q);
           g = srv (client_token gh) (world sp) (GetRepo (fst q) (snd q))
       in ((\<forall>j. fst g \<noteq> Reply 200 (RepoBody j)) \<longrightarrow>
             entry = Some (False, ''Repository not found'', ''unknown'')) \<and>
          (\<forall>j. fst g = Reply 200 (RepoBody j) \<longrightarrow>
             (let rep = fst (srv (client_token gh) (snd g)
                               (PatchRepo (fst q) (snd q) (\<not> json_private j)));
                  vis = (if json_private j then ''public'' else ''private'')
              in (\<forall>e. rep = Raised e \<longrightarrow> entry = Some (False, e, vis)) \<and>
                 (\<forall>status b. rep = Reply status b \<longrightarrow> status \<noteq> 200 \<longrightarrow>
                    (\<exists>msg. entry = Some (False, msg, vis))) \<and>
                 (\<forall>b. rep = Reply 200 b \<longrightarrow>
                    entry = Some (True, ''Repository '' @ snd q @ '' is now '' @ vis, vis)))))"
      unfolding l a by (rule entry_toggle[OF k])
  qed
qed

text \<open>
  The theorem on the batch \<open>a/x, b/y, c/z\<close> against the service whose transport fails
  on \<open>b/y\<close>, with a fixed visibility and in toggle mode, and in toggle mode against the
  service that answers 500.
\<close>

theorem batch_loop_partial_failure_witness:
  "''private'' \<noteq> ''toggle'' \<and>
   repo_key (''a'', ''x'') \<noteq> repo_key (''b'', ''y'') \<and>
   repo_key (''a'', ''x'') \<noteq> repo_key (''c'', ''z'') \<and>
   repo_key (''b'', ''y'') \<noteq> repo_key (''c'', ''z'') \<and>
   (\<forall>w. fst (flaky_server (client_token example_client) w (PatchRepo ''b'' ''y'' True))
          = Raised ''Connection reset'') \<and>
   fst (batch_loop flaky_server example_client ''private''
          [(''a'', ''x''), (''b'', ''y''), (''c'', ''z'')] new_session)
     = [(''a/x'', True, ''Repository x is now private'', ''private''),
        (''b/y'', False, ''Connection reset'', ''private''),
        (''c/z'', True, ''Repository z is now private'', ''private'')] \<and>
   [(''a'', ''x''), (''b'', ''y''), (''c'', ''z'')] = [(''a'', ''x'')] @ (''b'', ''y'') # [(''c'', ''z'')] \<and>
   repo_key (''b'', ''y'') \<notin> repo_key ` set [(''c'', ''z'')] \<and>
   map_of (fst (batch_loop flaky_server example_client ''private''
                  [(''a'', ''x''), (''b'', ''y''), (''c'', ''z'')] new_session)) ''b/y''
     = Some (False, ''Connection reset'', ''private'') \<and>
   map_of (fst (batch_loop failing_server example_client ''toggle''
                  [(''a'', ''x''), (''b'', ''y''), (''c'', ''z'')] new_session)) ''b/y''
     = Some (False, ''Repository not found'', ''unknown'') \<and>
   map_of (fst (batch_loop flaky_server example_client ''toggle''
                  [(''a'', ''x''), (''b'', ''y''), (''c'', ''z'')] new_session)) ''b/y''
     = Some (False, ''Connection reset'', ''private'') \<and>
   map_of (fst (batch_loop flaky_server example_client ''toggle''
                  [(''a'', ''x''), (''b'', ''y''), (''c'', ''z'')] new_session)) ''c/z''
     = Some (True, ''Repository z is now private'', ''private'')"
proof -
  have n: "''private'' \<noteq> ''toggle''" by simp
  have d: "repo_key (''a'', ''x'') \<noteq> repo_key (''b'', ''y'')"
          "repo_key (''a'', ''x'') \<noteq> repo_key (''c'', ''z'')"
          "repo_key (''b'', ''y'') \<noteq> repo_key (''c'', ''z'')"
    by (simp_all add: repo_key_def)
  have r1: "\<forall>w. fst (flaky_server (client_token example_client) w
              (PatchRepo (fst (''a'', ''x'')) (snd (''a'', ''x'')) (''private'' = ''private'')))
            = Reply 200 (RepoBody (public_repo ''a'' ''x''))" by simp
  have r2: "\<forall>w. fst (flaky_server (client_token example_client) w
              (PatchRepo (fst (''b'', ''y'')) (snd (''b'', ''y'')) (''private'' = ''private'')))
            = Raised ''Connection reset''" by simp
  have r3: "\<forall>w. fst (flaky_server (client_token example_client) w
              (PatchRepo (fst (''c'', ''z'')) (snd (''c'', ''z'')) (''private'' = ''private'')))
            = Reply 200 (RepoBody (public_repo ''c'' ''z''))" by simp
  note t = batch_loop_partial_failure[where srv = flaky_server and gh = example_client
          and action = "''private''" and repo_list = "[(''a'', ''x''), (''b'', ''y''), (''c'', ''z'')]"
          and s = new_session and p = "(''a'', ''x'')" and ?p1.0 = "(''a'', ''x'')"
          and ?p2.0 = "(''b'', ''y'')" and ?p3.0 = "(''c'', ''z'')"
          and ?b1.0 = "RepoBody (public_repo ''a'' ''x'')" and e = "''Connection reset''"
          and ?b3.0 = "RepoBody (public_repo ''c'' ''z'')"]
  from t[THEN conjunct2, THEN conjunct2, THEN conjunct1] n d r1 r2 r3
  have a: "fst (batch_loop flaky_server example_client ''private''
          [(''a'', ''x''), (''b'', ''y''), (''c'', ''z'')] new_session)
     = [(''a/x'', True, ''Repository x is now private'', ''private''),
        (''b/y'', False, ''Connection reset'', ''private''),
        (''c/z'', True, ''Repository z is now private'', ''private'')]"
    by (simp add: repo_key_def)
  have r2': "\<forall>w. fst (flaky_server (client_token example_client) w (PatchRepo ''b'' ''y'' True))
          = Raised ''Connection reset''" by simp
  have l: "[(''a'', ''x''), (''b'', ''y''), (''c'', ''z'')]
             = [(''a'', ''x'')] @ (''b'', ''y'') # [(''c'', ''z'')]" by simp
  have l3: "[(''a'', ''x''), (''b'', ''y''), (''c'', ''z'')]
             = [(''a'', ''x''), (''b'', ''y'')] @ (''c'', ''z'') # []" by simp
  have k: "repo_key (''b'', ''y'') \<notin> repo_key ` set [(''c'', ''z'')]"
    by (simp add: repo_key_def)
  have k3: "repo_key (''c'', ''z'') \<notin> repo_key ` set []" by simp
  have ky: "repo_key (''b'', ''y'') = ''b/y''" and kz: "repo_key (''c'', ''z'') = ''c/z''"
    by (simp_all add: repo_key_def)
  have pub: "\<not> json_private (public_repo ''b'' ''y'')" "\<not> json_private (public_repo ''c'' ''z'')"
    by (simp_all add: public_repo_def)
  from t[THEN conjunct2, THEN conjunct2, THEN conjunct2, THEN conjunct1, rule_format, OF l k n]
  have b: "map_of (fst (batch_loop flaky_server example_client ''private''
                  [(''a'', ''x''), (''b'', ''y''), (''c'', ''z'')] new_session)) ''b/y''
     = Some (False, ''Connection reset'', ''private'')"
    by (simp add: Let_def ky)
  note u = batch_loop_partial_failure[where srv = failing_server and gh = example_client
          and action = "''toggle''" and repo_list = "[(''a'', ''x''), (''b'', ''y''), (''c'', ''z'')]"
          and s = new_session]
  from u[THEN conjunct2, THEN conjunct2, THEN conjunct2, THEN conjunct2, rule_format, OF l k refl]
  have c: "map_of (fst (batch_loop failing_server example_client ''toggle''
                  [(''a'', ''x''), (''b'', ''y''), (''c'', ''z'')] new_session)) ''b/y''
     = Some (False, ''Repository not found'', ''unknown'')"
    by (simp add: Let_def ky failing_server_def)
  note v = batch_loop_partial_failure[where srv = flaky_server and gh = example_client
          and action = "''toggle''" and repo_list = "[(''a'', ''x''), (''b'', ''y''), (''c'', ''z'')]"
          and s = new_session]
  from v[THEN conjunct2, THEN conjunct2, THEN conjunct2, THEN conjunct2, rule_format, OF l k refl]
    pub
  have e: "map_of (fst (batch_loop flaky_server example_client ''toggle''
                  [(''a'', ''x''), (''b'', ''y''), (''c'', ''z'')] new_session)) ''b/y''
     = Some (False, ''Connection reset'', ''private'')"
    by (simp add: Let_def ky)
  from v[THEN conjunct2, THEN conjunct2, THEN conjunct2, THEN conjunct2, rule_format, OF l3 k3 refl]
    pub
  have f: "map_of (fst (batch_loop flaky_server example_client ''toggle''
                  [(''a'', ''x''), (''b'', ''y''), (''c'', ''z'')] new_session)) ''c/z''
     = Some (True, ''Repository z is now private'', ''private'')"
    by (simp add: Let_def kz)
  from n d r2' a l k b c e f show ?thesis by blast
qed

subsection \<open>The cap on the list\<close>

lemma example_active: "get_active_api toy_cipher example_vault 1 =
    Some \<lparr>user_id = 1, api_name = ''work'', github_token = ''ghp_1'',
          github_username = ''octo'', is_active = True, created_at = 0\<rparr>"
  by (simp add: example_vault_eq get_active_api_eq active_of_def toy_cipher_def)

lemma parse_eleven:
  "parse_repository_list ''r1,r2,r3,r4,r5,r6,r7,r8,r9,r10,r11'' ''octo'' =
     [(''octo'', ''r1''), (''octo'', ''r2''), (''octo'', ''r3''), (''octo'', ''r4''),
      (''octo'', ''r5''), (''octo'', ''r6''), (''octo'', ''r7''), (''octo'', ''r8''),
      (''octo'', ''r9''), (''octo'', ''r10''), (''octo'', ''r11'')]"
  by code_simp

lemma parse_ten:
  "parse_repository_list ''r1,r2,r3,r4,r5,r6,r7,r8,r9,r10'' ''octo'' =
     [(''octo'', ''r1''), (''octo'', ''r2''), (''octo'', ''r3''), (''octo'', ''r4''),
      (''octo'', ''r5''), (''octo'', ''r6''), (''octo'', ''r7''), (''octo'', ''r8''),
      (''octo'', ''r9''), (''octo'', ''r10'')]"
  by code_simp

lemma args_eleven:
  "parse_arguments [''r1,r2,r3,r4,r5,r6,r7,r8,r9,r10,r11'']
     = Inr (''toggle'', ''r1,r2,r3,r4,r5,r6,r7,r8,r9,r10,r11'')"
  by code_simp

lemma args_ten:
  "parse_arguments [''private'', ''r1,r2,r3,r4,r5'', ''r6,r7,r8,r9,r10'']
     = Inr (''private'', ''r1,r2,r3,r4,r5,r6,r7,r8,r9,r10'')"
  by code_simp


text \<open>
  C9. Let the user be authorized, with an active credential, and let the arguments
  give an action and a string of repositories. When the list parsed from that string
  has more than 10 different pairs, the command replies \<open>TooManyRepositories\<close> and the
  path of the batch ends there with the session as it was: no request has been sent.
  When the list has at most 10 elements the command does not reply
  \<open>TooManyRepositories\<close>, and, the list not being empty, asks for confirmation.
\<close>

theorem batch_cap:
  assumes "is_authorized admins uid"
      and "get_active_api c db uid = Some api"
      and "parse_arguments args = Inr (action, repos_str)"
  shows "(10 < length (remdups (parse_repository_list repos_str (github_username api))) \<longrightarrow>
            batch_toggle_command admins c db uid args
              = TooManyRepositories (length (parse_repository_list repos_str (github_username api))) \<and>
            batch_flow admins c db srv uid args s
              = (Replied (TooManyRepositories
                   (length (parse_repository_list repos_str (github_username api)))), s)) \<and>
         (length (parse_repository_list repos_str (github_username api)) \<le> 10 \<longrightarrow>
            (\<forall>n. batch_toggle_command admins c db uid args \<noteq> TooManyRepositories n)) \<and>
         (parse_repository_list repos_str (github_username api) \<noteq> [] \<longrightarrow>
          length (parse_repository_list repos_str (github_username api)) \<le> 10 \<longrightarrow>
            batch_toggle_command admins c db uid args = Confirmation action repos_str)"
proof -
  let ?l = "parse_repository_list repos_str (github_username api)"
  have cmd: "batch_toggle_command admins c db uid args =
      (if ?l = [] then InvalidRepositoryList
       else if length ?l > 10 then TooManyRepositories (length ?l)
       else Confirmation action repos_str)"
    using assms by (simp add: batch_toggle_command_def Let_def)
  have big: "10 < length (remdups ?l) \<Longrightarrow> 10 < length ?l \<and> ?l \<noteq> []"
  proof -
    assume h: "10 < length (remdups ?l)"
    have "length (remdups ?l) \<le> length ?l" by (rule length_remdups_leq)
    with h have "10 < length ?l" by linarith
    then show ?thesis by auto
  qed
  show ?thesis
  proof (intro conjI impI allI)
    assume h: "10 < length (remdups ?l)"
    with big cmd show c1: "batch_toggle_command admins c db uid args = TooManyRepositories (length ?l)"
      by simp
    then show "batch_flow admins c db srv uid args s = (Replied (TooManyRepositories (length ?l)), s)"
      by (simp add: batch_flow_def)
  next
    fix n assume "length ?l \<le> 10"
    with cmd show "batch_toggle_command admins c db uid args \<noteq> TooManyRepositories n"
      by simp
  next
    assume "?l \<noteq> []" "length ?l \<le> 10"
    with cmd show "batch_toggle_command admins c db uid args = Confirmation action repos_str"
      by simp
  qed
qed

text \<open>
  The theorem on eleven repositories, rejected without a request, and on ten, which
  reach the confirmation.
\<close>

theorem batch_cap_witness:
  "is_authorized [1] 1 \<and>
   10 < length (remdups (parse_repository_list ''r1,r2,r3,r4,r5,r6,r7,r8,r9,r10,r11'' ''octo'')) \<and>
   batch_flow [1] toy_cipher example_vault ok_server 1
       [''r1,r2,r3,r4,r5,r6,r7,r8,r9,r10,r11''] new_session
     = (Replied (TooManyRepositories 11), new_session) \<and>
   length (parse_repository_list ''r1,r2,r3,r4,r5,r6,r7,r8,r9,r10'' ''octo'') \<le> 10 \<and>
   batch_toggle_command [1] toy_cipher example_vault 1
       [''private'', ''r1,r2,r3,r4,r5'', ''r6,r7,r8,r9,r10'']
     = Confirmation ''private'' ''r1,r2,r3,r4,r5,r6,r7,r8,r9,r10''"
proof -
  have au: "is_authorized [1] 1" by (simp add: is_authorized_def)
  have big: "10 < length (remdups (parse_repository_list ''r1,r2,r3,r4,r5,r6,r7,r8,r9,r10,r11'' ''octo''))"
    unfolding parse_eleven by simp
  have small: "length (parse_repository_list ''r1,r2,r3,r4,r5,r6,r7,r8,r9,r10'' ''octo'') \<le> 10"
    unfolding parse_ten by simp
  have ne: "parse_repository_list ''r1,r2,r3,r4,r5,r6,r7,r8,r9,r10'' ''octo'' \<noteq> []"
    unfolding parse_ten by simp
  from batch_cap[OF au example_active args_eleven, of ok_server new_session] big
  have a: "batch_flow [1] toy_cipher example_vault ok_server 1
       [''r1,r2,r3,r4,r5,r6,r7,r8,r9,r10,r11''] new_session
     = (Replied (TooManyRepositories 11), new_session)"
    by (simp add: parse_eleven)
  from batch_cap[OF au example_active args_ten, of ok_server new_session] small ne
  have b: "batch_toggle_command [1] toy_cipher example_vault 1
       [''private'', ''r1,r2,r3,r4,r5'', ''r6,r7,r8,r9,r10'']
     = Confirmation ''private'' ''r1,r2,r3,r4,r5,r6,r7,r8,r9,r10''"
    by simp
  from au big a small b show ?thesis by blast
qed

section \<open>Properties of the cipher\<close>

lemma utf8_encode_char_ascii: "(of_char c :: nat) < 128 \<Longrightarrow> utf8_encode_char c = [c]"
  by (simp add: utf8_encode_char_def)















end
